theory Spec2Isabelle
  imports Complex_Main "HOL-Library.Word" "HOL-Library.Sublist"
begin

section \<open>The networking core of ctbc: communication.c\<close>

text \<open>
  The functions of \<^verbatim>\<open>src/communication.c\<close> are embedded as HOL functions, in the order
  of the data flow: bytes of a TCP segment are appended to the per-socket stream cache,
  frames are cut out of the cache, parsed and handed to the protocol handler, which updates
  the peer and emits messages.

  Conventions of the embedding.
  \<^item> A \<^verbatim>\<open>uint8_t\<close> is an \<open>8 word\<close>, a \<^verbatim>\<open>uint32_t\<close> a \<open>32 word\<close>, a \<^verbatim>\<open>uint64_t\<close> a \<open>64 word\<close>;
    buffer cursors and sizes (\<^verbatim>\<open>uint64_t\<close> values far from wrapping) are \<open>nat\<close>.
  \<^item> A \<^verbatim>\<open>double\<close> that holds a time or a latency, in milliseconds, is the \<open>real\<close> it
    denotes, and the handler's arithmetic on it is exact. The scores of \<^verbatim>\<open>rate_candidate\<close>
    are computed in binary64, with its rounding, infinities and NaN.
  \<^item> A byte array is a \<open>Byte list\<close>; a pointer into it is a \<open>drop\<close> of the list.
  \<^item> Calls that leave the process (writing to a socket, closing it, the chain store)
    are recorded as values of type \<open>Action\<close>, in call order.
  \<^item> Reads of the clock and of the random generator are arguments.
  \<^item> A write past the end of an array and a read through a null pointer are values of
    type \<open>Fault\<close>: the C program has no defined behaviour from there on.
\<close>

type_synonym Byte = "8 word"

datatype Fault = BufferOverrun | NullPointer

subsection \<open>Wire format\<close>

text \<open>
  \<^verbatim>\<open>struct Message\<close> of message.h: magic (4 bytes), command (12 bytes), length (4 bytes),
  checksum (\<^verbatim>\<open>CHECKSUM_SIZE\<close> = 4 bytes): \<^verbatim>\<open>sizeof(Header)\<close> is 24.
\<close>

definition CHECKSUM_SIZE :: nat where
  "CHECKSUM_SIZE = 4"

definition HEADER_SIZE :: nat where
  "HEADER_SIZE = 24"

text \<open>\<^verbatim>\<open>Byte buffer[65536]\<close> of \<^verbatim>\<open>struct MessageCache\<close> in peer.h.\<close>

definition BUFFER_CAPACITY :: nat where
  "BUFFER_CAPACITY = 65536"

text \<open>
  Modelled from the spec: parameters.h (\<^verbatim>\<open>mainnet.magic\<close>) is not in src. Section 6 fixes
  the mainnet magic of the Bitcoin wire protocol, the four bytes F9 BE B4 D9 (the
  little-endian 32-bit value 0xD9B4BEF9); \<^verbatim>\<open>sizeof(mainnet.magic)\<close> is 4.
\<close>

definition mainnet_magic :: "Byte list" where
  "mainnet_magic = [0xF9, 0xBE, 0xB4, 0xD9]"

definition MAGIC_SIZE :: nat where
  "MAGIC_SIZE = 4"

record Header =
  magic :: "Byte list"
  command :: "Byte list"
  length_h :: nat
  checksum :: "Byte list"

text \<open>A little-endian unsigned integer read from bytes.\<close>

fun le_nat :: "Byte list \<Rightarrow> nat" where
  "le_nat [] = 0"
| "le_nat (b # bs) = unat b + 256 * le_nat bs"

text \<open>
  Modelled from the spec: \<^verbatim>\<open>parse_message_header\<close> (messages/shared) is not in src.
  Section 4.1: Header = magic u32 LE, command of 12 zero-padded bytes, length u32 LE,
  checksum of 4 bytes; the parse reads the 24 bytes it is pointed at and cannot fail.
  The length field is kept as the number it denotes (below \<open>2 ^ 32\<close>).
\<close>

definition parse_message_header :: "Byte list \<Rightarrow> Header" where
  "parse_message_header ptrBuffer =
     \<lparr> magic = take 4 ptrBuffer,
       command = take 12 (drop 4 ptrBuffer),
       length_h = le_nat (take 4 (drop 16 ptrBuffer)),
       checksum = take CHECKSUM_SIZE (drop 20 ptrBuffer) \<rparr>"

text \<open>
  Modelled from the spec: \<^verbatim>\<open>starts_with_magic\<close> is not in src; the glossary's magic is
  the 4-byte prefix that begins every frame.
\<close>

definition starts_with_magic :: "Byte list \<Rightarrow> bool" where
  "starts_with_magic p = (take MAGIC_SIZE p = mainnet_magic)"

text \<open>A command as a C string: the bytes before the first zero byte.\<close>

definition c_string :: "Byte list \<Rightarrow> Byte list" where
  "c_string bs = takeWhile (\<lambda>b. b \<noteq> 0) bs"

definition ascii :: "string \<Rightarrow> Byte list" where
  "ascii s = map (\<lambda>c. of_nat (of_char c)) s"

definition CMD_VERSION :: string where "CMD_VERSION = ''version''"
definition CMD_VERACK :: string where "CMD_VERACK = ''verack''"
definition CMD_INV :: string where "CMD_INV = ''inv''"
definition CMD_ADDR :: string where "CMD_ADDR = ''addr''"
definition CMD_REJECT :: string where "CMD_REJECT = ''reject''"
definition CMD_PING :: string where "CMD_PING = ''ping''"
definition CMD_PONG :: string where "CMD_PONG = ''pong''"
definition CMD_HEADERS :: string where "CMD_HEADERS = ''headers''"
definition CMD_BLOCK :: string where "CMD_BLOCK = ''block''"
definition CMD_GETDATA :: string where "CMD_GETDATA = ''getdata''"
definition CMD_GETADDR :: string where "CMD_GETADDR = ''getaddr''"
definition CMD_GETHEADERS :: string where "CMD_GETHEADERS = ''getheaders''"
definition CMD_GETBLOCKS :: string where "CMD_GETBLOCKS = ''getblocks''"
definition CMD_SENDHEADERS :: string where "CMD_SENDHEADERS = ''sendheaders''"
definition XCMD_BINARY :: string where "XCMD_BINARY = ''binary''"

subsection \<open>Payloads and messages\<close>

text \<open>\<^verbatim>\<open>struct NetworkAddress\<close> of datatypes.h.\<close>

record NetworkAddress =
  na_services :: "64 word"
  na_ip :: "Byte list"
  na_port :: "16 word"

text \<open>\<^verbatim>\<open>struct VersionPayload\<close> of message.h.\<close>

record VersionPayload =
  version :: "32 word"
  services :: "64 word"
  timestamp :: "64 word"
  addr_recv :: NetworkAddress
  addr_from :: NetworkAddress
  vp_nonce :: "64 word"
  user_agent :: "Byte list"
  start_height :: "32 word"
  relay :: bool

text \<open>
  The other payload structs are declared in headers that are not in src; they are given
  by the fields communication.c reads. A block and a block header are opaque to this
  file (it forwards them to the chain), so they are kept as their bytes.
\<close>

record AddrRecord =
  ar_timestamp :: "32 word"
  net_addr :: NetworkAddress

record PingpongPayload =
  nonce :: "64 word"

record InventoryVector =
  iv_type :: "32 word"
  iv_hash :: "Byte list"

type_synonym BlockPayloadHeader = "Byte list"
type_synonym BlockPayload = "Byte list"

text \<open>
  A parsed message is its command together with the payload parsed for that command:
  \<^verbatim>\<open>parse_buffer_into_message\<close> picks the parser by \<^verbatim>\<open>strcmp\<close> on the header's command and
  \<^verbatim>\<open>handle_incoming_message\<close> picks its branch (and its cast of \<^verbatim>\<open>ptrPayload\<close>) by the same
  comparison, so the tagged union has one constructor per command.
\<close>

datatype Message =
    MsgVersion VersionPayload
  | MsgVerack
  | MsgInv "InventoryVector list"
  | MsgAddr "AddrRecord list"
  | MsgReject "Byte list"
  | MsgPing PingpongPayload
  | MsgPong PingpongPayload
  | MsgHeaders "BlockPayloadHeader list"
  | MsgBlock BlockPayload
  | MsgGetdata "InventoryVector list"

text \<open>
  The collaborators of the framer that are not in src, taken as parameters: the checksum
  of a payload (\<^verbatim>\<open>calculate_data_checksum\<close>, whose first \<^verbatim>\<open>CHECKSUM_SIZE\<close> bytes are compared)
  and the payload parsers (\<^verbatim>\<open>parse_into_version_message\<close> and its siblings; \<open>None\<close> is a
  nonzero error code). A parser is pointed at the start of a frame; it is given the frame,
  the 24 header bytes and the \<open>length\<close> payload bytes the header declares.
\<close>

record Codec =
  calculate_data_checksum :: "Byte list \<Rightarrow> Byte list"
  parse_into_version_message :: "Byte list \<Rightarrow> VersionPayload option"
  parse_into_verack_message :: "Byte list \<Rightarrow> unit option"
  parse_into_inv_message :: "Byte list \<Rightarrow> InventoryVector list option"
  parse_into_addr_message :: "Byte list \<Rightarrow> AddrRecord list option"
  parse_into_reject_message :: "Byte list \<Rightarrow> Byte list option"
  parse_into_pingpong_message :: "Byte list \<Rightarrow> PingpongPayload option"
  parse_into_headers_message :: "Byte list \<Rightarrow> BlockPayloadHeader list option"
  parse_into_block_message :: "Byte list \<Rightarrow> BlockPayload option"
  parse_into_blockreq_message :: "Byte list \<Rightarrow> InventoryVector list option"

definition parse_buffer_into_message :: "Codec \<Rightarrow> Byte list \<Rightarrow> Message option" where
  "parse_buffer_into_message cd ptrBuffer =
     (let header = parse_message_header ptrBuffer;
          frame = take (HEADER_SIZE + length_h header) ptrBuffer;
          cmd = c_string (command header)
      in if cmd = ascii CMD_VERSION then map_option MsgVersion (parse_into_version_message cd frame)
         else if cmd = ascii CMD_VERACK then map_option (\<lambda>_. MsgVerack) (parse_into_verack_message cd frame)
         else if cmd = ascii CMD_INV then map_option MsgInv (parse_into_inv_message cd frame)
         else if cmd = ascii CMD_ADDR then map_option MsgAddr (parse_into_addr_message cd frame)
         else if cmd = ascii CMD_REJECT then map_option MsgReject (parse_into_reject_message cd frame)
         else if cmd = ascii CMD_PING then map_option MsgPing (parse_into_pingpong_message cd frame)
         else if cmd = ascii CMD_PONG then map_option MsgPong (parse_into_pingpong_message cd frame)
         else if cmd = ascii CMD_HEADERS then map_option MsgHeaders (parse_into_headers_message cd frame)
         else if cmd = ascii CMD_BLOCK then map_option MsgBlock (parse_into_block_message cd frame)
         else if cmd = ascii CMD_GETDATA then map_option MsgGetdata (parse_into_blockreq_message cd frame)
         else None)"

subsection \<open>The stream framer\<close>

text \<open>
  \<^verbatim>\<open>struct MessageCache\<close> of peer.h: the cursor \<^verbatim>\<open>bufferIndex\<close> and the array \<^verbatim>\<open>buffer\<close>
  (\<^verbatim>\<open>expectedLength\<close> is not used by communication.c). The list \<open>buffer\<close> is the whole
  array, \<open>BUFFER_CAPACITY\<close> bytes, including the stale bytes at and after the cursor.
\<close>

record MessageCache =
  bufferIndex :: nat
  buffer :: "Byte list"

text \<open>
  \<^verbatim>\<open>memcpy(buffer + dst, src, n)\<close>: the \<open>n\<close> bytes at \<open>dst\<close> are replaced by the first \<open>n\<close>
  bytes of \<open>src\<close>. Where source and destination overlap (compaction copies towards the
  front of the same array), the bytes are those of the source before the copy.
\<close>

definition memcpy :: "Byte list \<Rightarrow> nat \<Rightarrow> Byte list \<Rightarrow> nat \<Rightarrow> Byte list" where
  "memcpy buf dst src n = take dst buf @ take n src @ drop (dst + n) buf"

definition checksum_match :: "Codec \<Rightarrow> Byte list \<Rightarrow> bool" where
  "checksum_match cd ptrBuffer =
     (let messageHeader = parse_message_header ptrBuffer;
          checksum' = take CHECKSUM_SIZE
            (calculate_data_checksum cd (take (length_h messageHeader) (drop HEADER_SIZE ptrBuffer)))
      in checksum' = checksum messageHeader)"

text \<open>
  \<^verbatim>\<open>find_first_magic\<close>: the loop over \<open>p\<close>, with \<open>k = p - data\<close>; the result -1 is \<open>None\<close>.
\<close>

function find_magic_from :: "Byte list \<Rightarrow> nat \<Rightarrow> nat \<Rightarrow> nat option" where
  "find_magic_from data maxLength k =
     (if k + MAGIC_SIZE < maxLength
      then (if starts_with_magic (drop k data) then Some k
            else find_magic_from data maxLength (Suc k))
      else None)"
  by pat_completeness auto
termination
  by (relation "measure (\<lambda>(data, maxLength, k). maxLength - k)") auto

definition find_first_magic :: "Byte list \<Rightarrow> nat \<Rightarrow> nat option" where
  "find_first_magic data maxLength = find_magic_from data maxLength 0"

text \<open>The two compactions of \<^verbatim>\<open>extract_message_from_stream_buffer\<close>: \<open>n\<close> bytes leave the front.\<close>

definition shift_out :: "MessageCache \<Rightarrow> nat \<Rightarrow> MessageCache" where
  "shift_out ptrCache n =
     ptrCache\<lparr> buffer := memcpy (buffer ptrCache) 0 (drop n (buffer ptrCache)) (bufferIndex ptrCache - n),
               bufferIndex := bufferIndex ptrCache - n \<rparr>"

text \<open>
  \<^verbatim>\<open>extract_message_from_stream_buffer\<close>. The handler \<open>handle\<close> stands for
  \<^verbatim>\<open>handle_incoming_message(ptrPeer, \<cdot>)\<close>, which reads and writes the peer and never the
  cache; \<open>s\<close> is everything it may change. \<open>magicOffset\<close> is computed before the first
  iteration and at the end of each iteration that consumed a frame, that is at the start
  of each call here.
\<close>

function extract_message_from_stream_buffer ::
  "Codec \<Rightarrow> ('s \<Rightarrow> Message \<Rightarrow> 's) \<Rightarrow> MessageCache \<Rightarrow> 's \<Rightarrow> MessageCache \<times> 's" where
  "extract_message_from_stream_buffer cd handle ptrCache s =
     (case find_first_magic (buffer ptrCache) (bufferIndex ptrCache) of
        None \<Rightarrow> (ptrCache, s)
      | Some magicOffset \<Rightarrow>
          (let c1 = (if magicOffset \<noteq> 0 then shift_out ptrCache magicOffset else ptrCache);
               header = parse_message_header (buffer c1);
               messageSize = HEADER_SIZE + length_h header
           in if bufferIndex c1 \<ge> messageSize
              then
                (let s' = (if \<not> checksum_match cd (buffer c1) then s
                           else (case parse_buffer_into_message cd (buffer c1) of
                                   None \<Rightarrow> s
                                 | Some message \<Rightarrow> handle s message));
                     c2 = shift_out c1 messageSize
                 in extract_message_from_stream_buffer cd handle c2 s')
              else (c1, s)))"
  by pat_completeness auto
termination
  by (relation "measure (\<lambda>(cd, handle, ptrCache, s). bufferIndex ptrCache)")
     (auto simp: shift_out_def HEADER_SIZE_def split: if_splits)

declare extract_message_from_stream_buffer.simps [simp del]
declare find_magic_from.simps [simp del]

text \<open>
  \<^verbatim>\<open>on_incoming_segment\<close>. A segment is the \<^verbatim>\<open>uv_buf_t\<close> (\<open>base\<close> is the allocation, so
  \<^verbatim>\<open>buf->len\<close> is \<open>length base\<close>) and \<^verbatim>\<open>nread\<close>, the number of bytes read into it or a
  negative error code. The \<^verbatim>\<open>memcpy\<close> copies \<^verbatim>\<open>buf->len\<close> bytes to the cursor and the cursor
  advances by \<^verbatim>\<open>nread\<close>; a copy that does not fit in the array is \<open>BufferOverrun\<close>.
  \<open>set_lastHeard\<close> is the assignment to \<^verbatim>\<open>peer->networking.lastHeard\<close>.
\<close>

record Segment =
  base :: "Byte list"
  nread :: int

definition UV_EOF :: int where
  "UV_EOF = -4095"

datatype SocketOp = KeepReading | UvClose

definition on_incoming_segment ::
  "Codec \<Rightarrow> ('s \<Rightarrow> Message \<Rightarrow> 's) \<Rightarrow> ('s \<Rightarrow> 's) \<Rightarrow> MessageCache \<Rightarrow> 's \<Rightarrow> Segment
     \<Rightarrow> Fault + (SocketOp \<times> MessageCache \<times> 's)" where
  "on_incoming_segment cd handle set_lastHeard ptrCache s buf =
     (if nread buf < 0
      then (if nread buf \<noteq> UV_EOF then Inr (UvClose, ptrCache, s) else Inr (KeepReading, ptrCache, s))
      else
        (let s1 = set_lastHeard s in
         if bufferIndex ptrCache + length (base buf) > length (buffer ptrCache)
         then Inl BufferOverrun
         else
           (let c1 = ptrCache\<lparr> buffer := memcpy (buffer ptrCache) (bufferIndex ptrCache) (base buf) (length (base buf)),
                                bufferIndex := bufferIndex ptrCache + nat (nread buf) \<rparr>;
                (c2, s2) = extract_message_from_stream_buffer cd handle c1 s1
            in Inr (KeepReading, c2, s2))))"

text \<open>
  Segments arriving in order on one socket: the read callback runs once per segment, on
  the state the previous call left. Nothing is read after a fault or after the socket
  was closed.
\<close>

fun feed_segments ::
  "Codec \<Rightarrow> ('s \<Rightarrow> Message \<Rightarrow> 's) \<Rightarrow> ('s \<Rightarrow> 's) \<Rightarrow> MessageCache \<Rightarrow> 's \<Rightarrow> Segment list
     \<Rightarrow> Fault + (SocketOp \<times> MessageCache \<times> 's)" where
  "feed_segments cd handle set_lastHeard ptrCache s [] = Inr (KeepReading, ptrCache, s)"
| "feed_segments cd handle set_lastHeard ptrCache s (buf # bufs) =
     (case on_incoming_segment cd handle set_lastHeard ptrCache s buf of
        Inl fault \<Rightarrow> Inl fault
      | Inr (UvClose, c, s') \<Rightarrow> Inr (UvClose, c, s')
      | Inr (KeepReading, c, s') \<Rightarrow> feed_segments cd handle set_lastHeard c s' bufs)"

text \<open>The cache of a fresh \<^verbatim>\<open>SocketContext\<close>: \<^verbatim>\<open>CALLOC\<close> zeroes it.\<close>

definition empty_cache :: MessageCache where
  "empty_cache = \<lparr> bufferIndex = 0, buffer = replicate BUFFER_CAPACITY 0 \<rparr>"

subsection \<open>What the framer is expected to do\<close>

text \<open>
  The bytes the cache holds: those before the cursor.
\<close>

definition pending :: "MessageCache \<Rightarrow> Byte list" where
  "pending ptrCache = take (bufferIndex ptrCache) (buffer ptrCache)"

text \<open>
  A frame whose header is sound: at least a header long, starting with the magic, and as
  long as its length field declares.
\<close>

definition well_headed :: "Byte list \<Rightarrow> bool" where
  "well_headed f = (HEADER_SIZE \<le> length f \<and> starts_with_magic f
      \<and> length_h (parse_message_header f) = length f - HEADER_SIZE)"

text \<open>
  A valid encoded message \<open>m\<close>: its frame is sound, the checksum of the payload is the one
  in the header, and the parser for its command returns \<open>m\<close>. A corrupt frame is sound but
  for the checksum.
\<close>

definition valid_frame :: "Codec \<Rightarrow> Byte list \<Rightarrow> Message \<Rightarrow> bool" where
  "valid_frame cd f m = (well_headed f \<and> checksum_match cd f \<and> parse_buffer_into_message cd f = Some m)"


text \<open>
  What one complete frame at the front of the cache does to the handler's state.
\<close>

definition deliver :: "Codec \<Rightarrow> ('s \<Rightarrow> Message \<Rightarrow> 's) \<Rightarrow> 's \<Rightarrow> Byte list \<Rightarrow> 's" where
  "deliver cd handle s f =
     (if \<not> checksum_match cd f then s
      else (case parse_buffer_into_message cd f of None \<Rightarrow> s | Some message \<Rightarrow> handle s message))"

text \<open>
  What the cache holds between two segments of an aligned stream: nothing, or the
  beginning of a frame that is not complete yet.
\<close>

definition partial_frame :: "Byte list \<Rightarrow> bool" where
  "partial_frame r = (r = [] \<or> (\<exists>f. well_headed f \<and> strict_prefix r f))"

text \<open>
  The bytes a segment carries: the first \<open>nread\<close> bytes of its buffer.
\<close>

definition seg_data :: "Segment \<Rightarrow> Byte list" where
  "seg_data buf = take (nat (nread buf)) (base buf)"

text \<open>
  The cursor as the lengths of the frames determine it. \<open>consume_frames ls n\<close> takes the
  complete frames out of \<open>n\<close> buffered bytes of an aligned stream: it returns the lengths
  of the frames still to come and the number of bytes held back. \<open>segments_fit ls held bufs\<close>
  says that every copy of \<^verbatim>\<open>on_incoming_segment\<close> ends within the array: the bytes held back
  plus the length of the segment's buffer are at most \<open>BUFFER_CAPACITY\<close>, segment after
  segment.
\<close>

fun consume_frames :: "nat list \<Rightarrow> nat \<Rightarrow> nat list \<times> nat" where
  "consume_frames [] held = ([], held)"
| "consume_frames (l # ls) held =
     (if l \<le> held then consume_frames ls (held - l) else (l # ls, held))"

fun segments_fit :: "nat list \<Rightarrow> nat \<Rightarrow> Segment list \<Rightarrow> bool" where
  "segments_fit frameLengths held [] = True"
| "segments_fit frameLengths held (b # bs) =
     (held + length (base b) \<le> BUFFER_CAPACITY
      \<and> (case consume_frames frameLengths (held + nat (nread b)) of
            (ls, held') \<Rightarrow> segments_fit ls held' bs))"

subsection \<open>Concrete frames and segments\<close>

text \<open>
  An instance of the parameters, to run the framer on concrete bytes: an additive
  checksum stands for the double SHA-256 of \<^verbatim>\<open>calculate_data_checksum\<close>, and the parsers of
  verack, ping, pong, reject and block read the payload in the simplest way.
\<close>

definition sum_checksum :: "Byte list \<Rightarrow> Byte list" where
  "sum_checksum payload =
     (let n = sum_list (map unat payload)
      in [of_nat n, of_nat (n div 256), of_nat (n div 65536), of_nat (n div 16777216)])"

definition test_codec :: Codec where
  "test_codec =
     \<lparr> calculate_data_checksum = sum_checksum,
       parse_into_version_message = (\<lambda>frame. None),
       parse_into_verack_message = (\<lambda>frame. if length frame = HEADER_SIZE then Some () else None),
       parse_into_inv_message = (\<lambda>frame. None),
       parse_into_addr_message = (\<lambda>frame. None),
       parse_into_reject_message = (\<lambda>frame. Some (drop HEADER_SIZE frame)),
       parse_into_pingpong_message =
         (\<lambda>frame. if length frame = HEADER_SIZE + 8
            then Some \<lparr> nonce = of_nat (le_nat (drop HEADER_SIZE frame)) \<rparr> else None),
       parse_into_headers_message = (\<lambda>frame. None),
       parse_into_block_message = (\<lambda>frame. Some (drop HEADER_SIZE frame)),
       parse_into_blockreq_message = (\<lambda>frame. None) \<rparr>"

text \<open>
  A verack frame (24 bytes), a ping frame with nonce 0x0807060504030201 (32 bytes), the
  same ping frame with a wrong checksum byte, and a block frame with a payload of 65536
  zero bytes (65560 bytes).
\<close>

definition verack_frame :: "Byte list" where
  "verack_frame = mainnet_magic @ ascii CMD_VERACK @ [0, 0, 0, 0, 0, 0] @ [0, 0, 0, 0] @ [0, 0, 0, 0]"

definition ping_frame :: "Byte list" where
  "ping_frame = mainnet_magic @ ascii CMD_PING @ [0, 0, 0, 0, 0, 0, 0, 0] @ [8, 0, 0, 0] @ [36, 0, 0, 0]
                  @ [1, 2, 3, 4, 5, 6, 7, 8]"


definition big_frame :: "Byte list" where
  "big_frame = mainnet_magic @ ascii CMD_BLOCK @ [0, 0, 0, 0, 0, 0, 0] @ [0, 0, 1, 0] @ [0, 0, 0, 0]
                 @ replicate 65536 0"

text \<open>
  The segment that carries the bytes \<open>i..<j\<close> of a stream in a buffer of exactly that size,
  and the segment libuv delivers: the bytes in an allocation of the suggested size 65536
  (\<^verbatim>\<open>allocate_read_buffer\<close> sets \<^verbatim>\<open>buf->len = suggested_size\<close>).
\<close>

definition wire_segment :: "Byte list \<Rightarrow> nat \<Rightarrow> nat \<Rightarrow> Segment" where
  "wire_segment stream i j = \<lparr> base = take (j - i) (drop i stream), nread = int (j - i) \<rparr>"

definition libuv_segment :: "Byte list \<Rightarrow> Segment" where
  "libuv_segment bytes = \<lparr> base = bytes @ replicate (65536 - length bytes) 0, nread = int (length bytes) \<rparr>"


subsection \<open>Configuration\<close>

text \<open>
  \<^verbatim>\<open>const struct Config config\<close> of config.c, with the fields communication.c reads:
  \<^verbatim>\<open>protocolVersion = 70015\<close>, \<^verbatim>\<open>getaddrThreshold = 1000\<close>, and the latency tolerance
  \<^verbatim>\<open>SECOND_TO_MILLISECOND(2)\<close>, 2000 ms (config.c names the field \<^verbatim>\<open>peerLatencyTolerence\<close>,
  communication.c reads it as \<^verbatim>\<open>config.tolerances.latency\<close>).
\<close>

record Config =
  protocolVersion :: "32 word"
  getaddrThreshold :: nat
  tolerances_latency :: real

definition config :: Config where
  "config = \<lparr> protocolVersion = 70015, getaddrThreshold = 1000, tolerances_latency = 2000 \<rparr>"

subsection \<open>Peers and candidates\<close>

text \<open>
  Modelled from the spec: the headers that declare \<^verbatim>\<open>Peer\<close> and \<^verbatim>\<open>PeerCandidate\<close> as
  communication.c uses them are not in src (the peer.h in src is an earlier one, without
  \<^verbatim>\<open>networking\<close> and \<^verbatim>\<open>candidacy\<close>). The records follow section 3 of the spec and the field
  accesses of communication.c. The pointer \<^verbatim>\<open>candidacy\<close> is kept as the candidate it points
  to: the handler writes through it and never reads what another peer wrote.
\<close>

datatype CandidateStatus = PEER_CANDIDATE_STATUS_ACTIVE | PEER_CANDIDATE_STATUS_DISABLED

record PeerCandidate =
  addr :: AddrRecord
  status :: CandidateStatus
  averageLatency :: real

record HandshakeState =
  acceptThem :: bool
  acceptUs :: bool
  handshakeStart :: real

record PingState =
  ping_nonce :: "64 word"
  pingSent :: real
  pongReceived :: real

record Networking =
  ping :: PingState
  requesting :: "Byte list"
  latencies :: "real list"
  latencyIndex :: nat
  lastHeard :: real

record Peer =
  index :: nat
  handshake :: HandshakeState
  chain_height :: "32 word"
  networking :: Networking
  connectionStart :: real
  address :: NetworkAddress
  candidacy :: PeerCandidate

definition SHA256_LENGTH :: nat where
  "SHA256_LENGTH = 32"

text \<open>
  Modelled from the spec: \<^verbatim>\<open>peer_hand_shaken\<close> and \<^verbatim>\<open>is_hash_empty\<close> are not in src.
  Section 3: both handshake flags true is a complete handshake; a \<open>requesting\<close> hash of
  all zero bytes means idle.
\<close>

definition peer_hand_shaken :: "Peer \<Rightarrow> bool" where
  "peer_hand_shaken ptrPeer = (acceptThem (handshake ptrPeer) \<and> acceptUs (handshake ptrPeer))"

definition is_hash_empty :: "Byte list \<Rightarrow> bool" where
  "is_hash_empty hash = list_all (\<lambda>b. b = 0) hash"

text \<open>
  Modelled from the spec: \<^verbatim>\<open>record_latency\<close>, \<^verbatim>\<open>is_latency_fully_tested\<close> and
  \<^verbatim>\<open>average_peer_latency\<close> are not in src. Section 3: the latency ring is a fixed-size
  ring of the N most recent round-trip samples, fully tested once the ring is filled.
  \<open>latencies\<close> is the ring (N is its length) and \<open>latencyIndex\<close> counts the samples
  recorded so far.
\<close>

definition record_latency :: "Peer \<Rightarrow> real \<Rightarrow> Peer" where
  "record_latency ptrPeer latency =
     ptrPeer\<lparr> networking := (networking ptrPeer)
       \<lparr> latencies := (latencies (networking ptrPeer))
            [latencyIndex (networking ptrPeer) mod length (latencies (networking ptrPeer)) := latency],
         latencyIndex := latencyIndex (networking ptrPeer) + 1 \<rparr> \<rparr>"

definition is_latency_fully_tested :: "Peer \<Rightarrow> bool" where
  "is_latency_fully_tested ptrPeer =
     (length (latencies (networking ptrPeer)) \<le> latencyIndex (networking ptrPeer))"

definition average_peer_latency :: "Peer \<Rightarrow> real" where
  "average_peer_latency ptrPeer =
     sum_list (latencies (networking ptrPeer)) / real (length (latencies (networking ptrPeer)))"

text \<open>
  Modelled from the spec: \<^verbatim>\<open>is_ipv4\<close> is not in src. Section 3: an address is a 16-byte
  IP, IPv4 embedded in IPv6-mapped form (ten zero bytes, then FF FF, then the four bytes).
\<close>

definition is_ipv4 :: "Byte list \<Rightarrow> bool" where
  "is_ipv4 ip = (take 12 ip = [0, 0, 0, 0, 0, 0, 0, 0, 0, 0, 0xFF, 0xFF])"

subsection \<open>What leaves the process\<close>

record BlockRequestPayload =
  br_version :: "32 word"
  hashCount :: nat
  blockLocatorHash :: "Byte list list"
  hashStop :: "Byte list"

text \<open>The \<^verbatim>\<open>void *ptrData\<close> of \<^verbatim>\<open>send_message\<close>, by the type the command's branch casts it to.\<close>

datatype SendData =
    NoData
  | PingpongData PingpongPayload
  | IVData "InventoryVector list"
  | BlockReqData BlockRequestPayload
  | BinaryData "Byte list"

text \<open>
  The calls out of communication.c, as values: a message handed to
  \<^verbatim>\<open>write_buffer_to_socket\<close> for the peer's socket, \<^verbatim>\<open>replace_peer\<close> (the socket is closed and
  the slot is rebound when the close completes), and the calls into the candidate
  registry and the chain, which are not in src.
\<close>

datatype Action =
    SendMessage string SendData
  | ReplacePeer
  | AddAddressAsCandidate NetworkAddress "32 word"
  | ProcessIncomingBlockHeader BlockPayloadHeader
  | ProcessIncomingBlock BlockPayload

text \<open>
  \<^verbatim>\<open>send_message\<close>: every command of the \<^verbatim>\<open>strcmp\<close> chain is serialized and written; any
  other command is reported on stderr and nothing is written.
\<close>

definition send_message :: "string \<Rightarrow> SendData \<Rightarrow> Action list" where
  "send_message cmd ptrData =
     (if cmd = CMD_VERSION \<or> cmd = CMD_VERACK \<or> cmd = CMD_GETADDR
         \<or> cmd = CMD_GETDATA \<or> cmd = CMD_GETHEADERS \<or> cmd = CMD_GETBLOCKS
         \<or> cmd = CMD_SENDHEADERS \<or> cmd = CMD_PING \<or> cmd = CMD_PONG
         \<or> cmd = XCMD_BINARY
      then [SendMessage cmd ptrData]
      else [])"

subsection \<open>The protocol handler\<close>

text \<open>
  What a call of the handler reads from outside the peer: the globals \<^verbatim>\<open>global.ibdMode\<close>
  and \<^verbatim>\<open>global.peerCandidateCount\<close>, the chain's
  \<^verbatim>\<open>max_full_block_height_from_genesis()\<close>, the value \<^verbatim>\<open>random_uint64()\<close> returns to
  \<^verbatim>\<open>ping_peer\<close>, and the clock: \<^verbatim>\<open>get_now()\<close> as read by \<^verbatim>\<open>handle_incoming_message\<close> and as
  read by \<^verbatim>\<open>ping_peer\<close>, in milliseconds.
\<close>

record Env =
  ibdMode :: bool
  peerCandidateCount :: nat
  maxFullBlockHeight :: "32 word"
  randomNonce :: "64 word"
  now :: real
  nowPing :: real

text \<open>
  \<^verbatim>\<open>ping_peer\<close>. The doubles \<^verbatim>\<open>pingSent\<close> and \<^verbatim>\<open>pongReceived\<close> are tested as truth values:
  nonzero is true. \<^verbatim>\<open>pingSent\<close> is assigned later, by \<^verbatim>\<open>on_message_attempted\<close>, when the write
  completes.
\<close>

definition ping_peer :: "Env \<Rightarrow> Peer \<Rightarrow> Peer \<times> Action list" where
  "ping_peer env ptrPeer =
     (let p1 = (if pingSent (ping (networking ptrPeer)) \<noteq> 0
                   \<and> \<not> pongReceived (ping (networking ptrPeer)) \<noteq> 0
                then record_latency ptrPeer (nowPing env - pingSent (ping (networking ptrPeer)))
                else ptrPeer);
          p2 = p1\<lparr> networking := (networking p1)
                 \<lparr> ping := (ping (networking p1))
                      \<lparr> ping_nonce := randomNonce env, pongReceived := 0 \<rparr> \<rparr> \<rparr>
      in (p2, send_message CMD_PING (PingpongData \<lparr> nonce = ping_nonce (ping (networking p2)) \<rparr>)))"

text \<open>
  \<^verbatim>\<open>on_handshake_success\<close>. \<^verbatim>\<open>chain_height\<close> is assigned from an \<^verbatim>\<open>int32_t\<close> and compared with
  a \<^verbatim>\<open>uint32_t\<close>: the comparison is unsigned.
\<close>

definition on_handshake_success :: "Env \<Rightarrow> Peer \<Rightarrow> Peer \<times> Action list" where
  "on_handshake_success env ptrPeer =
     (if ibdMode env \<and> chain_height ptrPeer < maxFullBlockHeight env
      then (ptrPeer, [ReplacePeer])
      else
        (let shouldSendGetaddr = peerCandidateCount env < getaddrThreshold config;
             acts = (if shouldSendGetaddr then send_message CMD_GETADDR NoData else []);
             (p, pingActs) = ping_peer env ptrPeer
         in (p, acts @ pingActs)))"

text \<open>\<^verbatim>\<open>round\<close> of math.h rounds halfway cases away from zero.\<close>

definition c_round :: "real \<Rightarrow> int" where
  "c_round x = (if 0 \<le> x then \<lfloor>x + 1 / 2\<rfloor> else - \<lfloor>- x + 1 / 2\<rfloor>)"

definition HOUR_TO_SECOND_2 :: "32 word" where
  "HOUR_TO_SECOND_2 = 7200"

text \<open>The loop of the \<^verbatim>\<open>addr\<close> branch: IPv4 records go to the registry, two hours younger.\<close>

fun add_addr_records :: "AddrRecord list \<Rightarrow> Action list" where
  "add_addr_records [] = []"
| "add_addr_records (rec # rest) =
     (if is_ipv4 (na_ip (net_addr rec))
      then AddAddressAsCandidate (net_addr rec) (ar_timestamp rec - HOUR_TO_SECOND_2)
             # add_addr_records rest
      else add_addr_records rest)"

text \<open>
  \<^verbatim>\<open>handle_incoming_message\<close>, with its branches in the order of the \<^verbatim>\<open>strcmp\<close> chain.
  \<open>minimalPeerVersion\<close> is \<^verbatim>\<open>mainnet.minimalPeerVersion\<close> (parameters.h is not in src);
  the payload's \<^verbatim>\<open>int32_t version\<close> is compared as a signed number. The commands without
  a branch (\<^verbatim>\<open>reject\<close>, \<^verbatim>\<open>getdata\<close>) and \<^verbatim>\<open>inv\<close>, whose branch is empty, change nothing beyond
  the candidate's timestamp.
\<close>

definition handle_incoming_message :: "int \<Rightarrow> Env \<Rightarrow> Peer \<Rightarrow> Message \<Rightarrow> Peer \<times> Action list" where
  "handle_incoming_message minimalPeerVersion env ptrPeer message =
     (let timestamp' = (word_of_int (c_round (now env / 1000)) :: 32 word);
          p0 = ptrPeer\<lparr> candidacy := (candidacy ptrPeer)
                 \<lparr> addr := (addr (candidacy ptrPeer))\<lparr> ar_timestamp := timestamp' \<rparr> \<rparr> \<rparr>
      in case message of
           MsgVersion ptrPayloadTyped \<Rightarrow>
             (let p1 = (if sint (version ptrPayloadTyped) \<ge> minimalPeerVersion
                        then p0\<lparr> handshake := (handshake p0)\<lparr> acceptThem := True \<rparr> \<rparr>
                        else p0);
                  p2 = p1\<lparr> chain_height := start_height ptrPayloadTyped \<rparr>;
                  p3 = p2\<lparr> candidacy := (candidacy p2)
                         \<lparr> addr := (addr (candidacy p2))
                              \<lparr> net_addr := (net_addr (addr (candidacy p2)))
                                   \<lparr> na_services := services ptrPayloadTyped \<rparr> \<rparr> \<rparr> \<rparr>
              in if peer_hand_shaken p3 then on_handshake_success env p3 else (p3, []))
         | MsgVerack \<Rightarrow>
             (let p1 = p0\<lparr> handshake := (handshake p0)\<lparr> acceptUs := True \<rparr> \<rparr>;
                  acts = send_message CMD_VERACK NoData
              in if peer_hand_shaken p1
                 then (let (p2, acts2) = on_handshake_success env p1 in (p2, acts @ acts2))
                 else (p1, acts))
         | MsgAddr addr_list \<Rightarrow> (p0, add_addr_records addr_list)
         | MsgPing ptrPayload \<Rightarrow> (p0, send_message CMD_PONG (PingpongData ptrPayload))
         | MsgPong ptrPayload \<Rightarrow>
             (if nonce ptrPayload = ping_nonce (ping (networking p0))
              then
                (let p1 = p0\<lparr> networking := (networking p0)
                            \<lparr> ping := (ping (networking p0))\<lparr> pongReceived := now env \<rparr> \<rparr> \<rparr>;
                     latency = now env - pingSent (ping (networking p1));
                     p2 = record_latency p1 latency
                 in if is_latency_fully_tested p2
                    then (p2\<lparr> candidacy := (candidacy p2)
                               \<lparr> averageLatency := average_peer_latency p2 \<rparr> \<rparr>, [])
                    else (p2, []))
              else (p0, []))
         | MsgHeaders headers \<Rightarrow> (p0, map ProcessIncomingBlockHeader headers)
         | MsgBlock ptrBlock \<Rightarrow>
             (p0\<lparr> networking := (networking p0)\<lparr> requesting := replicate SHA256_LENGTH 0 \<rparr> \<rparr>,
              [ProcessIncomingBlock ptrBlock])
         | MsgInv inventory \<Rightarrow> (p0, [])
         | MsgReject data \<Rightarrow> (p0, [])
         | MsgGetdata inventory \<Rightarrow> (p0, []))"

text \<open>
  The messages a peer receives, in order: each is handled on the peer the previous one
  left, with the globals and the clock as they are at that moment. The result lists, for
  each message, the peer after it and what the handler emitted.
\<close>

fun run_messages :: "int \<Rightarrow> Peer \<Rightarrow> (Env \<times> Message) list \<Rightarrow> (Peer \<times> Action list) list" where
  "run_messages minimalPeerVersion ptrPeer [] = []"
| "run_messages minimalPeerVersion ptrPeer ((env, message) # rest) =
     (let (p, acts) = handle_incoming_message minimalPeerVersion env ptrPeer message
      in (p, acts) # run_messages minimalPeerVersion p rest)"

subsection \<open>What the handshake is expected to do\<close>

text \<open>
  A version message the peer is accepted for, and the two observations that complete a
  handshake: such a version message and a verack, in either order.
\<close>

definition accepts_version :: "int \<Rightarrow> Message \<Rightarrow> bool" where
  "accepts_version minimalPeerVersion m =
     (case m of MsgVersion payload \<Rightarrow> minimalPeerVersion \<le> sint (version payload) | _ \<Rightarrow> False)"

definition is_version :: "Message \<Rightarrow> bool" where
  "is_version m = (case m of MsgVersion payload \<Rightarrow> True | _ \<Rightarrow> False)"

definition handshake_observed :: "int \<Rightarrow> Message list \<Rightarrow> bool" where
  "handshake_observed minimalPeerVersion ms =
     (list_ex (accepts_version minimalPeerVersion) ms \<and> list_ex (\<lambda>m. m = MsgVerack) ms)"

text \<open>
  The handshake-success action as the spec words it, by what it emits: in IBD mode a peer
  whose height is below the local full-block height is replaced; otherwise a getaddr if
  the candidate count is below the threshold, then a ping with a fresh nonce.
\<close>

definition handshake_success_actions :: "Env \<Rightarrow> 32 word \<Rightarrow> Action list" where
  "handshake_success_actions env height =
     (if ibdMode env \<and> height < maxFullBlockHeight env then [ReplacePeer]
      else (if peerCandidateCount env < getaddrThreshold config then [SendMessage CMD_GETADDR NoData] else [])
           @ [SendMessage CMD_PING (PingpongData \<lparr> nonce = randomNonce env \<rparr>)])"

definition is_ping_or_getaddr :: "Action \<Rightarrow> bool" where
  "is_ping_or_getaddr a = (case a of SendMessage cmd d \<Rightarrow> cmd = CMD_PING \<or> cmd = CMD_GETADDR | _ \<Rightarrow> False)"

text \<open>
  The verack the handler sends back for a verack, before anything else.
\<close>

definition verack_reply :: "Message \<Rightarrow> Action list" where
  "verack_reply m = (if m = MsgVerack then [SendMessage CMD_VERACK NoData] else [])"

subsection \<open>Concrete peers and messages\<close>

text \<open>
  A peer as \<^verbatim>\<open>reset_peer\<close> and \<^verbatim>\<open>initialize_peer\<close> leave it (both handshake flags clear, no
  ping sent, idle), bound to an active candidate, with a latency ring of three samples;
  the same peer with a ping outstanding; a version payload with the given version,
  services 1 and start height 600000; the globals outside IBD mode with five candidates.
\<close>

definition fresh_peer :: Peer where
  "fresh_peer =
     \<lparr> index = 0,
       handshake = \<lparr> acceptThem = False, acceptUs = False, handshakeStart = 0 \<rparr>,
       chain_height = 0,
       networking = \<lparr> ping = \<lparr> ping_nonce = 0, pingSent = 0, pongReceived = 0 \<rparr>,
                      requesting = replicate SHA256_LENGTH 0,
                      latencies = [0, 0, 0], latencyIndex = 0, lastHeard = 0 \<rparr>,
       connectionStart = 0,
       address = \<lparr> na_services = 0, na_ip = [0, 0, 0, 0, 0, 0, 0, 0, 0, 0, 0xFF, 0xFF, 10, 0, 0, 1], na_port = 8333 \<rparr>,
       candidacy = \<lparr> addr = \<lparr> ar_timestamp = 0,
                                net_addr = \<lparr> na_services = 0,
                                   na_ip = [0, 0, 0, 0, 0, 0, 0, 0, 0, 0, 0xFF, 0xFF, 10, 0, 0, 1],
                                   na_port = 8333 \<rparr> \<rparr>,
                     status = PEER_CANDIDATE_STATUS_ACTIVE, averageLatency = 0 \<rparr> \<rparr>"

definition pinged_peer :: Peer where
  "pinged_peer = fresh_peer\<lparr> networking := (networking fresh_peer)
     \<lparr> ping := \<lparr> ping_nonce = 77, pingSent = 5000, pongReceived = 0 \<rparr> \<rparr> \<rparr>"

definition version_payload :: "32 word \<Rightarrow> VersionPayload" where
  "version_payload v =
     \<lparr> version = v, services = 1, timestamp = 0,
       addr_recv = \<lparr> na_services = 0, na_ip = [], na_port = 0 \<rparr>,
       addr_from = \<lparr> na_services = 0, na_ip = [], na_port = 0 \<rparr>,
       vp_nonce = 0, user_agent = [], start_height = 600000, relay = False \<rparr>"

definition quiet_env :: "64 word \<Rightarrow> real \<Rightarrow> Env" where
  "quiet_env n t = \<lparr> ibdMode = False, peerCandidateCount = 5, maxFullBlockHeight = 0,
                     randomNonce = n, now = t, nowPing = t \<rparr>"

text \<open>
  A peer that sends version, verack, and then a second verack.
\<close>

definition handshake_steps :: "(Env \<times> Message) list" where
  "handshake_steps =
     [(quiet_env 11 1000, MsgVersion (version_payload 70015)),
      (quiet_env 12 2000, MsgVerack),
      (quiet_env 13 3000, MsgVerack)]"

subsection \<open>Arithmetic of doubles\<close>

text \<open>
  The scores of \<^verbatim>\<open>rate_candidate\<close> are C doubles, computed in IEEE 754 binary64 with every
  operation rounded to nearest, ties to even. A double is a finite number, an infinity or
  NaN. A finite double is kept as the real it denotes, so zero has one sign only:
  \<^verbatim>\<open>rate_candidate\<close> tests the latency before it divides by it, and no other operation it
  uses tells \<open>-0\<close> from \<open>0\<close>.
\<close>

datatype double = Finite real | PlusInfinity | MinusInfinity | NotANumber

text \<open>
  \<open>binade a\<close> is the binary exponent \<open>e\<close> of \<open>a \<ge> 0\<close>, that is \<open>2\<^sup>e \<le> a < 2\<^sup>e\<^sup>+\<^sup>1\<close>, kept within
  the exponent range of binary64: from \<open>-1022\<close> (the subnormal numbers have the exponent of
  the smallest normal ones) to \<open>1024\<close> (where every number rounds to an infinity).
\<close>

function binade_up :: "real \<Rightarrow> int \<Rightarrow> int" where
  "binade_up a e = (if 2 \<le> a \<and> e < 1024 then binade_up (a / 2) (e + 1) else e)"
  by pat_completeness auto
termination
  by (relation "measure (\<lambda>(a, e). nat (1024 - e))") auto

function binade_down :: "real \<Rightarrow> int \<Rightarrow> int" where
  "binade_down a e = (if a < 1 \<and> - 1022 < e then binade_down (a * 2) (e - 1) else e)"
  by pat_completeness auto
termination
  by (relation "measure (\<lambda>(a, e). nat (e + 1022))") auto

declare binade_up.simps [simp del]
declare binade_down.simps [simp del]

definition binade :: "real \<Rightarrow> int" where
  "binade a = (if 1 \<le> a then binade_up a 0 else binade_down a 0)"

text \<open>
  Rounding to the nearest integer, ties to the even one; rounding of \<open>a \<ge> 0\<close> to the
  nearest multiple of the spacing of the doubles in its binade (53 significant bits);
  rounding of a real to a double, which overflows to an infinity from \<open>2\<^sup>1\<^sup>0\<^sup>2\<^sup>4\<close> on.
\<close>

definition round_half_even :: "real \<Rightarrow> int" where
  "round_half_even y =
     (let f = \<lfloor>y\<rfloor>; d = y - of_int f
      in if d < 1 / 2 then f else if 1 / 2 < d then f + 1 else if even f then f else f + 1)"

definition round_magnitude :: "real \<Rightarrow> real" where
  "round_magnitude a =
     (let q = 2 powi (binade a - 52) in of_int (round_half_even (a / q)) * q)"

definition round_double :: "real \<Rightarrow> double" where
  "round_double x =
     (let r = round_magnitude \<bar>x\<bar>
      in if 2 powi 1024 \<le> r then (if 0 < x then PlusInfinity else MinusInfinity)
         else Finite (if 0 \<le> x then r else - r))"

text \<open>
  The operations \<^verbatim>\<open>-x\<close>, \<^verbatim>\<open>x + y\<close>, \<^verbatim>\<open>x - y\<close>, \<^verbatim>\<open>x * y\<close> and \<^verbatim>\<open>x / y\<close> of C on doubles. A division
  of a nonzero number by zero gives the infinity of the sign of the dividend.
\<close>

fun double_neg :: "double \<Rightarrow> double" where
  "double_neg (Finite x) = Finite (- x)"
| "double_neg PlusInfinity = MinusInfinity"
| "double_neg MinusInfinity = PlusInfinity"
| "double_neg NotANumber = NotANumber"

fun double_add :: "double \<Rightarrow> double \<Rightarrow> double" where
  "double_add (Finite x) (Finite y) = round_double (x + y)"
| "double_add NotANumber y = NotANumber"
| "double_add x NotANumber = NotANumber"
| "double_add PlusInfinity MinusInfinity = NotANumber"
| "double_add MinusInfinity PlusInfinity = NotANumber"
| "double_add PlusInfinity y = PlusInfinity"
| "double_add x PlusInfinity = PlusInfinity"
| "double_add MinusInfinity y = MinusInfinity"
| "double_add x MinusInfinity = MinusInfinity"

definition double_sub :: "double \<Rightarrow> double \<Rightarrow> double" where
  "double_sub x y = double_add x (double_neg y)"

fun double_mul :: "double \<Rightarrow> double \<Rightarrow> double" where
  "double_mul (Finite x) (Finite y) = round_double (x * y)"
| "double_mul NotANumber y = NotANumber"
| "double_mul x NotANumber = NotANumber"
| "double_mul (Finite x) y = (if x = 0 then NotANumber else if 0 < x then y else double_neg y)"
| "double_mul x (Finite y) = (if y = 0 then NotANumber else if 0 < y then x else double_neg x)"
| "double_mul PlusInfinity y = y"
| "double_mul MinusInfinity y = double_neg y"

fun double_div :: "double \<Rightarrow> double \<Rightarrow> double" where
  "double_div (Finite x) (Finite y) =
     (if y \<noteq> 0 then round_double (x / y)
      else if x = 0 then NotANumber
      else if 0 < x then PlusInfinity else MinusInfinity)"
| "double_div NotANumber y = NotANumber"
| "double_div x NotANumber = NotANumber"
| "double_div (Finite x) y = Finite 0"
| "double_div x (Finite y) = (if 0 \<le> y then x else double_neg x)"
| "double_div x y = NotANumber"

text \<open>
  The comparisons \<^verbatim>\<open>x > y\<close>, \<^verbatim>\<open>x < y\<close> and \<^verbatim>\<open>x <= y\<close> of C on doubles: false when an operand
  is NaN.
\<close>

fun double_gt :: "double \<Rightarrow> double \<Rightarrow> bool" where
  "double_gt (Finite x) (Finite y) = (x > y)"
| "double_gt PlusInfinity (Finite y) = True"
| "double_gt PlusInfinity MinusInfinity = True"
| "double_gt (Finite x) MinusInfinity = True"
| "double_gt x y = False"

definition double_lt :: "double \<Rightarrow> double \<Rightarrow> bool" where
  "double_lt x y = double_gt y x"

fun double_le :: "double \<Rightarrow> double \<Rightarrow> bool" where
  "double_le (Finite x) (Finite y) = (x \<le> y)"
| "double_le NotANumber y = False"
| "double_le x NotANumber = False"
| "double_le MinusInfinity y = True"
| "double_le x PlusInfinity = True"
| "double_le x y = False"

subsection \<open>Data exchange\<close>

text \<open>
  \<^verbatim>\<open>send_getheaders\<close>: one locator hash, the main tip's, and a zero stop hash.
\<close>

definition send_getheaders :: "Byte list \<Rightarrow> Action list" where
  "send_getheaders mainTipHash =
     (let hashCount = 1;
          payload = \<lparr> br_version = protocolVersion config, hashCount = hashCount,
                      blockLocatorHash = [take SHA256_LENGTH mainTipHash],
                      hashStop = replicate SHA256_LENGTH 0 \<rparr>
      in send_message CMD_GETHEADERS (BlockReqData payload))"

text \<open>
  \<^verbatim>\<open>IV_TYPE_MSG_BLOCK\<close> is declared in a header that is not in src; it is the inventory type
  of a block in the wire protocol, 2.
\<close>

definition IV_TYPE_MSG_BLOCK :: "32 word" where
  "IV_TYPE_MSG_BLOCK = 2"

text \<open>
  \<^verbatim>\<open>send_getdata_for_block\<close>. The pointer \<^verbatim>\<open>hash\<close> is \<open>None\<close> when it is \<^verbatim>\<open>NULL\<close>; the function
  copies \<^verbatim>\<open>SHA256_LENGTH\<close> bytes from it without a test.
\<close>

definition send_getdata_for_block :: "Byte list option \<Rightarrow> Fault + Action list" where
  "send_getdata_for_block hash =
     (case hash of
        None \<Rightarrow> Inl NullPointer
      | Some h \<Rightarrow>
          Inr (send_message CMD_GETDATA
                 (IVData [\<lparr> iv_type = IV_TYPE_MSG_BLOCK, iv_hash = take SHA256_LENGTH h \<rparr>])))"

definition is_peer_idle :: "Peer \<Rightarrow> bool" where
  "is_peer_idle ptrPeer =
     (peer_hand_shaken ptrPeer \<and> is_hash_empty (requesting (networking ptrPeer)))"

text \<open>
  The part of \<^verbatim>\<open>global\<close> (\<^verbatim>\<open>struct GlobalState\<close>) that \<^verbatim>\<open>exchange_data_with_peers\<close> reads:
  the peer table \<^verbatim>\<open>peers\<close>, the number of slots in use \<^verbatim>\<open>peerCount\<close>, and the height and hash
  of the main tip (\<^verbatim>\<open>mainTip.context.height\<close>, \<^verbatim>\<open>mainTip.meta.hash\<close>).
\<close>

record GlobalState =
  peers :: "Peer list"
  peerCount :: nat
  mainTipHeight :: "32 word"
  mainTipHash :: "Byte list"

definition count_idle_peers :: "GlobalState \<Rightarrow> nat" where
  "count_idle_peers g = length (filter is_peer_idle (take (peerCount g) (peers g)))"

text \<open>
  The loop of \<^verbatim>\<open>exchange_data_with_peers\<close> over the peers from slot \<open>i\<close> on, with the cursor
  \<open>blockIndex\<close> into the hashes found. The result lists, for each slot, what was sent on
  its socket. No field of a peer is assigned: \<open>requesting\<close> stays as it is.
\<close>

fun exchange_loop ::
  "32 word \<Rightarrow> Byte list \<Rightarrow> Byte list list \<Rightarrow> Peer list \<Rightarrow> nat \<Rightarrow> Fault + Action list list" where
  "exchange_loop tipHeight tipHash blocksDesired [] blockIndex = Inr []"
| "exchange_loop tipHeight tipHash blocksDesired (ptrPeer # rest) blockIndex =
     (if \<not> peer_hand_shaken ptrPeer
      then (case exchange_loop tipHeight tipHash blocksDesired rest blockIndex of
              Inl fault \<Rightarrow> Inl fault
            | Inr sent \<Rightarrow> Inr ([] # sent))
      else
        (let headerActs = (if chain_height ptrPeer > tipHeight then send_getheaders tipHash else []);
             take_block = (is_peer_idle ptrPeer \<and> blockIndex < length blocksDesired);
             blockToRequest = (if take_block then Some (blocksDesired ! blockIndex) else None);
             blockIndex' = (if take_block then blockIndex + 1 else blockIndex)
         in case send_getdata_for_block blockToRequest of
              Inl fault \<Rightarrow> Inl fault
            | Inr dataActs \<Rightarrow>
                (case exchange_loop tipHeight tipHash blocksDesired rest blockIndex' of
                   Inl fault \<Rightarrow> Inl fault
                 | Inr sent \<Rightarrow> Inr ((headerActs @ dataActs) # sent))))"

text \<open>
  \<^verbatim>\<open>exchange_data_with_peers\<close>. \<open>find_missing_blocks\<close> is the chain's function of that
  name (not in src): asked for up to \<open>n\<close> hashes, it returns those it found.
\<close>

definition exchange_data_with_peers :: "(nat \<Rightarrow> Byte list list) \<Rightarrow> GlobalState \<Rightarrow> Fault + Action list list" where
  "exchange_data_with_peers find_missing_blocks g =
     (let idlePeers = count_idle_peers g;
          blocksDesired = take idlePeers (find_missing_blocks idlePeers)
      in exchange_loop (mainTipHeight g) (mainTipHash g) blocksDesired (take (peerCount g) (peers g)) 0)"

subsection \<open>Candidate selection\<close>

text \<open>
  Modelled from the spec: units.h (\<^verbatim>\<open>SECOND_TO_MILLISECOND\<close>, \<^verbatim>\<open>DAY_TO_MILLISECOND\<close>) is not
  in src. Times are in milliseconds (section 3), and config.c gives the latency tolerance
  of 2 s as \<^verbatim>\<open>SECOND_TO_MILLISECOND(2)\<close>: a second is 1000 ms and a day 86400000 ms. The
  argument of \<^verbatim>\<open>SECOND_TO_MILLISECOND\<close> in \<^verbatim>\<open>rate_candidate\<close> is a double, so the product is
  one; \<^verbatim>\<open>DAY_TO_MILLISECOND\<close> is applied to integer constants, whose products are doubles
  without rounding.
\<close>

definition DAY_TO_MILLISECOND :: "nat \<Rightarrow> double" where
  "DAY_TO_MILLISECOND d = Finite (real (d * 86400000))"

definition SECOND_TO_MILLISECOND :: "double \<Rightarrow> double" where
  "SECOND_TO_MILLISECOND s = double_mul s (Finite 1000)"

text \<open>
  \<^verbatim>\<open>rate_candidate\<close>. \<open>now\<close> is what \<^verbatim>\<open>get_now()\<close> returns and \<open>sample\<close> what
  \<^verbatim>\<open>random_betwen_0_1()\<close> returns in this call. The candidate's \<^verbatim>\<open>averageLatency\<close> and
  \<^verbatim>\<open>config.tolerances.latency\<close> are finite doubles, read as such; the conversion of the
  \<^verbatim>\<open>uint32_t\<close> timestamp to a double is exact; the literal \<^verbatim>\<open>0.8\<close> is the double nearest to
  0.8, while \<^verbatim>\<open>-10\<close>, \<^verbatim>\<open>0\<close>, \<^verbatim>\<open>1.0\<close>, \<^verbatim>\<open>0.5\<close>, \<^verbatim>\<open>1\<close> and \<^verbatim>\<open>2\<close> are doubles themselves. The sum of the
  four scores is evaluated from the left, each addition rounded.
\<close>

definition rate_candidate :: "double \<Rightarrow> double \<Rightarrow> PeerCandidate \<Rightarrow> double" where
  "rate_candidate now' sample ptrCandidate =
     (let statusScore =
            (if status ptrCandidate = PEER_CANDIDATE_STATUS_DISABLED then Finite (- 10) else Finite 0);
          deltaT = double_sub now'
            (SECOND_TO_MILLISECOND
               (double_mul (Finite (real (unat (ar_timestamp (addr ptrCandidate))))) (Finite 1.0)));
          timestampScore =
            (if double_gt deltaT (DAY_TO_MILLISECOND 7) then round_double 0.8
             else if double_gt deltaT (DAY_TO_MILLISECOND 1) then Finite 1.0
             else Finite 0.5);
          latencyScore =
            (if averageLatency ptrCandidate \<noteq> 0
             then double_div (Finite (tolerances_latency config)) (Finite (averageLatency ptrCandidate))
             else Finite 1);
          shuffleScore = double_mul sample (Finite 2);
          score = double_add (double_add (double_add statusScore timestampScore) latencyScore)
                    shuffleScore
      in score)"

text \<open>
  The loop of \<^verbatim>\<open>pick_best_nonpeer_candidate\<close> over the candidates from index \<open>i\<close> on.
  \<open>is_peer\<close> (not in src) tells whether the candidate at an index is bound to a peer
  slot; \<open>samples k\<close> is the \<open>k\<close>-th value the random generator returns in this call of
  \<^verbatim>\<open>pick_best_nonpeer_candidate\<close>. The result is the index of the best candidate and its
  score.
\<close>

fun pick_loop ::
  "(nat \<Rightarrow> bool) \<Rightarrow> double \<Rightarrow> (nat \<Rightarrow> double) \<Rightarrow> PeerCandidate list \<Rightarrow> nat \<Rightarrow> nat \<Rightarrow> nat \<times> double
     \<Rightarrow> nat \<times> double" where
  "pick_loop is_peer now' samples [] i k (ptrBestCandidate, bestScore) = (ptrBestCandidate, bestScore)"
| "pick_loop is_peer now' samples (ptrCandidate # rest) i k (ptrBestCandidate, bestScore) =
     (if is_peer i
      then pick_loop is_peer now' samples rest (Suc i) k (ptrBestCandidate, bestScore)
      else
        (let score = rate_candidate now' (samples k) ptrCandidate
         in if double_gt score bestScore
            then pick_loop is_peer now' samples rest (Suc i) (Suc k) (i, score)
            else pick_loop is_peer now' samples rest (Suc i) (Suc k) (ptrBestCandidate, bestScore)))"

text \<open>
  \<^verbatim>\<open>pick_best_nonpeer_candidate\<close> on the first \<^verbatim>\<open>peerCandidateCount\<close> entries of
  \<^verbatim>\<open>global.peerCandidates\<close>. The best candidate starts as entry 0, rated with the first
  sample, whether or not entry 0 is a peer; the table always has an entry 0 (it is a
  static array), so \<open>None\<close> stands for a table the program cannot have.
\<close>

definition pick_best_nonpeer_candidate ::
  "(nat \<Rightarrow> bool) \<Rightarrow> double \<Rightarrow> (nat \<Rightarrow> double) \<Rightarrow> PeerCandidate list \<Rightarrow> nat \<Rightarrow> (nat \<times> double) option" where
  "pick_best_nonpeer_candidate is_peer now' samples peerCandidates candidateCount =
     (case peerCandidates of
        [] \<Rightarrow> None
      | first # others \<Rightarrow>
          Some (pick_loop is_peer now' samples (take candidateCount peerCandidates) 0 1
                  (0, rate_candidate now' (samples 0) first)))"

subsection \<open>The admin socket\<close>

text \<open>
  Modelled from the spec: \<^verbatim>\<open>INSTRUCTION_KILL\<close> is defined in a header that is not in src;
  section 4.9 gives the literal \<^verbatim>\<open>KILL\<close>.
\<close>

definition INSTRUCTION_KILL :: string where
  "INSTRUCTION_KILL = ''KILL''"

datatype LoopOp = UvTimerStop | UvStop | UvLoopClose | UvCloseSocket

text \<open>
  \<^verbatim>\<open>terminate_main_loop\<close>: the timer, if one is given, is stopped; then the loop is stopped
  and closed.
\<close>

definition terminate_main_loop :: "bool \<Rightarrow> LoopOp list" where
  "terminate_main_loop handle = (if handle then [UvTimerStop] else []) @ [UvStop, UvLoopClose]"

text \<open>
  \<^verbatim>\<open>on_incoming_segment_to_api\<close>. \<^verbatim>\<open>memcmp\<close> compares the first \<^verbatim>\<open>strlen(INSTRUCTION_KILL)\<close>
  bytes of the read buffer \<^verbatim>\<open>buf->base\<close>; \<^verbatim>\<open>nread\<close> is only tested for being negative. The
  result lists the calls that stop the loop or close the socket: an empty list leaves the
  loop running.
\<close>

definition on_incoming_segment_to_api :: "Segment \<Rightarrow> LoopOp list" where
  "on_incoming_segment_to_api buf =
     (if nread buf < 0
      then (if nread buf \<noteq> UV_EOF then [UvCloseSocket] else [])
      else (if take (length INSTRUCTION_KILL) (base buf) = ascii INSTRUCTION_KILL
            then terminate_main_loop False
            else []))"

subsection \<open>Concrete nodes, candidates and admin reads\<close>

text \<open>
  A handshaken, idle peer; a block hash of 32 equal bytes; a node whose only slot holds
  that peer, at a main tip above the peer's height (so that no getheaders is due).
\<close>

definition shaken_peer :: Peer where
  "shaken_peer = fresh_peer\<lparr> handshake := \<lparr> acceptThem = True, acceptUs = True, handshakeStart = 0 \<rparr> \<rparr>"

definition block_hash :: "Byte \<Rightarrow> Byte list" where
  "block_hash b = replicate SHA256_LENGTH b"

definition one_peer_node :: GlobalState where
  "one_peer_node = \<lparr> peers = [shaken_peer], peerCount = 1, mainTipHeight = 700000,
                      mainTipHash = block_hash 9 \<rparr>"

text \<open>
  A candidate with the given status, last-seen timestamp (seconds) and average latency
  (milliseconds).
\<close>

definition candidate :: "CandidateStatus \<Rightarrow> 32 word \<Rightarrow> real \<Rightarrow> PeerCandidate" where
  "candidate st ts latency =
     \<lparr> addr = \<lparr> ar_timestamp = ts,
                 net_addr = \<lparr> na_services = 1,
                              na_ip = [0, 0, 0, 0, 0, 0, 0, 0, 0, 0, 0xFF, 0xFF, 10, 0, 0, 1],
                              na_port = 8333 \<rparr> \<rparr>,
       status = st, averageLatency = latency \<rparr>"

text \<open>
  A read of one byte, \<^verbatim>\<open>K\<close>, into a read buffer of 65536 bytes whose next three bytes are
  \<^verbatim>\<open>ILL\<close>, left there by an earlier read (\<^verbatim>\<open>allocate_read_buffer\<close> does not clear what
  \<^verbatim>\<open>MALLOC\<close> returns).
\<close>

definition stale_kill_segment :: Segment where
  "stale_kill_segment = \<lparr> base = ascii ''KILL'' @ replicate 65532 0, nread = 1 \<rparr>"

section \<open>Properties of the stream framer\<close>

subsection \<open>One frame at the front of the cache\<close>

lemma find_first_magic_short: "maxLength \<le> MAGIC_SIZE \<Longrightarrow> find_first_magic data maxLength = None"
  by (simp add: find_first_magic_def find_magic_from.simps)

lemma find_first_magic_aligned:
  "starts_with_magic data \<Longrightarrow> MAGIC_SIZE < maxLength \<Longrightarrow> find_first_magic data maxLength = Some 0"
  by (simp add: find_first_magic_def find_magic_from.simps)

lemma parse_message_header_append:
  "HEADER_SIZE \<le> length f \<Longrightarrow> parse_message_header (f @ rest) = parse_message_header f"
  by (simp add: parse_message_header_def HEADER_SIZE_def CHECKSUM_SIZE_def)

lemma starts_with_magic_append:
  "MAGIC_SIZE \<le> length f \<Longrightarrow> starts_with_magic (f @ rest) = starts_with_magic f"
  by (simp add: starts_with_magic_def)

lemma checksum_match_append:
  "well_headed f \<Longrightarrow> checksum_match cd (f @ rest) = checksum_match cd f"
  by (simp add: checksum_match_def well_headed_def parse_message_header_append Let_def)

lemma parse_buffer_into_message_append:
  "well_headed f \<Longrightarrow> parse_buffer_into_message cd (f @ rest) = parse_buffer_into_message cd f"
  by (simp add: parse_buffer_into_message_def well_headed_def parse_message_header_append Let_def)

lemma shift_out_pending:
  "bufferIndex c \<le> length (buffer c) \<Longrightarrow> pending (shift_out c n) = drop n (pending c)"
  by (simp add: pending_def shift_out_def memcpy_def drop_take)

lemma shift_out_length:
  "bufferIndex c \<le> length (buffer c) \<Longrightarrow> length (buffer (shift_out c n)) = length (buffer c)"
  by (simp add: shift_out_def memcpy_def)

lemma shift_out_index: "bufferIndex (shift_out c n) = bufferIndex c - n"
  by (simp add: shift_out_def)

lemma pending_length: "bufferIndex c \<le> length (buffer c) \<Longrightarrow> length (pending c) = bufferIndex c"
  by (simp add: pending_def)

text \<open>
  A sound frame at the front of the cache is consumed: the handler sees its message if
  checksum and parse succeed, and the frame's bytes leave the cache.
\<close>

lemma extract_frame_step:
  assumes "buffer c = f @ rest" "well_headed f" "length f \<le> bufferIndex c"
  shows "extract_message_from_stream_buffer cd handle c s =
         extract_message_from_stream_buffer cd handle (shift_out c (length f)) (deliver cd handle s f)"
proof -
  have m: "find_first_magic (buffer c) (bufferIndex c) = Some 0"
    using assms by (intro find_first_magic_aligned)
      (auto simp: well_headed_def starts_with_magic_append HEADER_SIZE_def MAGIC_SIZE_def)
  have h: "HEADER_SIZE + length_h (parse_message_header (buffer c)) = length f"
    using assms by (simp add: well_headed_def parse_message_header_append)
  have cm: "checksum_match cd (buffer c) = checksum_match cd f"
    using assms by (simp add: checksum_match_append)
  have pm: "parse_buffer_into_message cd (buffer c) = parse_buffer_into_message cd f"
    using assms by (simp add: parse_buffer_into_message_append)
  show ?thesis
    by (subst extract_message_from_stream_buffer.simps)
       (simp add: m h cm pm assms(3) deliver_def Let_def)
qed

text \<open>
  An incomplete frame stays where it is: the magic is found at offset 0, the header is
  read (from stale bytes where fewer than 24 bytes are buffered), and the cursor is below
  the message size either way.
\<close>

lemma extract_partial:
  assumes "pending c = r" "partial_frame r" "bufferIndex c \<le> length (buffer c)"
  shows "extract_message_from_stream_buffer cd handle c s = (c, s)"
proof (cases "bufferIndex c \<le> MAGIC_SIZE")
  case True
  then show ?thesis
    by (subst extract_message_from_stream_buffer.simps) (simp add: find_first_magic_short)
next
  case False
  have len: "length r = bufferIndex c"
    using assms by (auto simp: pending_def)
  with False assms obtain f where f: "well_headed f" "strict_prefix r f"
    by (auto simp: partial_frame_def MAGIC_SIZE_def)
  then obtain t where t: "f = r @ t" "t \<noteq> []"
    by (auto simp: strict_prefix_def prefix_def)
  have buf: "buffer c = r @ drop (bufferIndex c) (buffer c)"
    using assms(1) by (metis append_take_drop_id pending_def)
  have "starts_with_magic r"
    using f(1) False len t by (simp add: well_headed_def starts_with_magic_def MAGIC_SIZE_def)
  then have "starts_with_magic (buffer c)"
    using False len by (subst buf) (simp add: starts_with_magic_def MAGIC_SIZE_def)
  then have m: "find_first_magic (buffer c) (bufferIndex c) = Some 0"
    using False by (intro find_first_magic_aligned) auto
  have "bufferIndex c < HEADER_SIZE + length_h (parse_message_header (buffer c))"
  proof (cases "HEADER_SIZE \<le> length r")
    case True
    then have "parse_message_header (buffer c) = parse_message_header f"
      by (subst buf) (simp add: parse_message_header_append t)
    then show ?thesis
      using f(1) t len by (simp add: well_headed_def)
  next
    case False
    then show ?thesis using len by simp
  qed
  then show ?thesis
    by (subst extract_message_from_stream_buffer.simps) (simp add: m Let_def)
qed

lemma extract_frames:
  assumes "\<forall>f \<in> set frames. well_headed f" "pending c = concat frames @ r" "partial_frame r"
    "bufferIndex c \<le> length (buffer c)"
  shows "\<exists>c'. extract_message_from_stream_buffer cd handle c s = (c', foldl (deliver cd handle) s frames)
           \<and> pending c' = r \<and> bufferIndex c' = length r \<and> length (buffer c') = length (buffer c)"
  using assms
proof (induction frames arbitrary: c s)
  case Nil
  then have "extract_message_from_stream_buffer cd handle c s = (c, s)"
    by (intro extract_partial[where r = r]) auto
  moreover have "bufferIndex c = length r"
    using Nil by (auto simp: pending_def)
  ultimately show ?case using Nil by simp
next
  case (Cons f fs)
  have idx: "bufferIndex c = length f + length (concat fs @ r)"
    using Cons.prems(2,4) by (metis append.assoc concat.simps(2) length_append length_take min.absorb2 pending_def)
  have buf: "buffer c = f @ (concat fs @ r @ drop (bufferIndex c) (buffer c))"
    using Cons.prems(2) by (metis append.assoc append_take_drop_id concat.simps(2) pending_def)
  have step: "extract_message_from_stream_buffer cd handle c s =
      extract_message_from_stream_buffer cd handle (shift_out c (length f)) (deliver cd handle s f)"
    using Cons.prems(1) idx by (intro extract_frame_step[OF buf]) auto
  have p: "pending (shift_out c (length f)) = concat fs @ r"
    using Cons.prems by (simp add: shift_out_pending)
  have l: "bufferIndex (shift_out c (length f)) \<le> length (buffer (shift_out c (length f)))"
    using Cons.prems(4) by (simp add: shift_out_length shift_out_index)
  from Cons.IH[OF _ p Cons.prems(3) l, of "deliver cd handle s f"] Cons.prems(1,4)
  show ?case by (simp add: step shift_out_length)
qed

lemma extract_short:
  assumes "bufferIndex c < HEADER_SIZE"
  shows "snd (extract_message_from_stream_buffer cd handle c s) = s"
  using assms
  by (subst extract_message_from_stream_buffer.simps)
     (auto simp: Let_def shift_out_index split: option.splits)

lemma deliver_valid: "valid_frame cd f m \<Longrightarrow> deliver cd handle s f = handle s m"
  by (simp add: valid_frame_def deliver_def)


lemma foldl_deliver_valid:
  "\<forall>(f, m) \<in> set fms. valid_frame cd f m \<Longrightarrow>
     foldl (deliver cd handle) s (map fst fms) = foldl handle s (map snd fms)"
  by (induction fms arbitrary: s) (auto simp: deliver_valid)

subsection \<open>Segments\<close>

lemma append_pending:
  assumes "bufferIndex c + length b \<le> length (buffer c)" "n \<le> length b"
  shows "pending (c\<lparr> buffer := memcpy (buffer c) (bufferIndex c) b (length b),
                     bufferIndex := bufferIndex c + n \<rparr>) = pending c @ take n b"
    and "length (buffer (c\<lparr> buffer := memcpy (buffer c) (bufferIndex c) b (length b),
                     bufferIndex := bufferIndex c + n \<rparr>)) = length (buffer c)"
  using assms by (simp_all add: pending_def memcpy_def)

text \<open>
  A prefix of a concatenation of frames is some whole frames and the beginning of the next.
\<close>

lemma prefix_concat_decompose:
  assumes "prefix p (concat fs)" "\<forall>f \<in> set fs. f \<noteq> []"
  shows "\<exists>k r. k \<le> length fs \<and> p = concat (take k fs) @ r \<and> r @ drop (length p) (concat fs) = concat (drop k fs)
            \<and> (if k < length fs then strict_prefix r (fs ! k) else r = [])
            \<and> consume_frames (map length fs) (length p) = (map length (drop k fs), length r)"
  using assms
proof (induction fs arbitrary: p)
  case Nil
  then show ?case by simp
next
  case (Cons f fs)
  show ?case
  proof (cases "strict_prefix p f")
    case True
    then obtain t where t: "f = p @ t" "t \<noteq> []" by (auto simp: strict_prefix_def prefix_def)
    then have "p @ drop (length p) (concat (f # fs)) = concat (f # fs)" by simp
    with True t show ?thesis by (intro exI[of _ 0] exI[of _ p]) simp
  next
    case False
    have "prefix p (f @ concat fs)" using Cons.prems(1) by simp
    then obtain p' where p': "p = f @ p'" "prefix p' (concat fs)"
      using False by (auto simp: prefix_append strict_prefix_def)
    from Cons.prems have "\<forall>f \<in> set fs. f \<noteq> []" by auto
    note p'(2) this
    from Cons.IH[OF this] obtain k r where kr: "k \<le> length fs" "p' = concat (take k fs) @ r"
      "r @ drop (length p') (concat fs) = concat (drop k fs)"
      "if k < length fs then strict_prefix r (fs ! k) else r = []"
      "consume_frames (map length fs) (length p') = (map length (drop k fs), length r)" by blast
    show ?thesis
      using kr p' by (intro exI[of _ "Suc k"] exI[of _ r]) auto
  qed
qed

lemma on_incoming_segment_frames:
  assumes wh: "\<forall>f \<in> set frames. well_headed f"
    and seg: "0 \<le> nread b" "nat (nread b) \<le> length (base b)"
      "bufferIndex c + length (base b) \<le> length (buffer c)"
    and data: "pending c @ seg_data b = concat frames @ r"
    and part: "partial_frame r"
  shows "\<exists>c'. on_incoming_segment cd handle (\<lambda>s. s) c s b
             = Inr (KeepReading, c', foldl (deliver cd handle) s frames)
           \<and> pending c' = r \<and> bufferIndex c' = length r \<and> length (buffer c') = length (buffer c)"
proof -
  define c1 where "c1 = c\<lparr> buffer := memcpy (buffer c) (bufferIndex c) (base b) (length (base b)),
                                bufferIndex := bufferIndex c + nat (nread b) \<rparr>"
  have p1: "pending c1 = concat frames @ r"
    using append_pending(1)[OF seg(3) seg(2)] data by (simp add: c1_def seg_data_def)
  have l1: "length (buffer c1) = length (buffer c)"
    using append_pending(2)[OF seg(3) seg(2)] by (simp add: c1_def)
  have i1: "bufferIndex c1 \<le> length (buffer c1)"
    using seg l1 by (simp add: c1_def)
  from extract_frames[OF wh p1 part i1, of cd handle s] obtain c' where
    c': "extract_message_from_stream_buffer cd handle c1 s = (c', foldl (deliver cd handle) s frames)"
    "pending c' = r" "bufferIndex c' = length r" "length (buffer c') = length (buffer c1)" by blast
  have "on_incoming_segment cd handle (\<lambda>s. s) c s b = Inr (KeepReading, c', foldl (deliver cd handle) s frames)"
    using seg c'(1) by (simp add: on_incoming_segment_def Let_def c1_def[symmetric])
  then show ?thesis using c' l1 by simp
qed

lemma feed_segments_frames:
  assumes "\<forall>f \<in> set frames. well_headed f"
    and "\<forall>b \<in> set bufs. 0 \<le> nread b \<and> nat (nread b) \<le> length (base b)"
    and "pending c @ concat (map seg_data bufs) = concat frames"
    and "frames \<noteq> [] \<longrightarrow> strict_prefix (pending c) (hd frames)"
    and "bufferIndex c \<le> length (buffer c)" and "length (buffer c) = BUFFER_CAPACITY"
  shows "if segments_fit (map length frames) (bufferIndex c) bufs
         then \<exists>c'. feed_segments cd handle (\<lambda>s. s) c s bufs
                      = Inr (KeepReading, c', foldl (deliver cd handle) s frames)
                    \<and> bufferIndex c' = 0
         else feed_segments cd handle (\<lambda>s. s) c s bufs = Inl BufferOverrun"
  using assms
proof (induction bufs arbitrary: c s frames)
  case Nil
  have "frames = []"
  proof (rule ccontr)
    assume ne: "frames \<noteq> []"
    then obtain f fs where "frames = f # fs" by (cases frames) auto
    with Nil.prems(3,4) show False by (auto simp: strict_prefix_def)
  qed
  with Nil.prems(3,5) have "bufferIndex c = 0"
    by (auto simp: pending_def)
  with \<open>frames = []\<close> show ?case by simp
next
  case (Cons b bs)
  let ?p = "pending c @ seg_data b"
  have nr: "0 \<le> nread b" "nat (nread b) \<le> length (base b)"
    using Cons.prems(2) by auto
  show ?case
  proof (cases "bufferIndex c + length (base b) \<le> BUFFER_CAPACITY")
    case False
    then have "on_incoming_segment cd handle (\<lambda>s. s) c s b = Inl BufferOverrun"
      using nr Cons.prems(6) by (simp add: on_incoming_segment_def)
    with False show ?thesis by simp
  next
    case True
    have nonempty: "\<forall>f \<in> set frames. f \<noteq> []"
      using Cons.prems(1) by (auto simp: well_headed_def HEADER_SIZE_def)
    have seg: "0 \<le> nread b" "nat (nread b) \<le> length (base b)"
        "bufferIndex c + length (base b) \<le> length (buffer c)"
      using nr True Cons.prems(6) by auto
    have pre: "prefix ?p (concat frames)"
      using Cons.prems(3) by (metis append.assoc concat.simps(2) list.simps(9) prefixI)
    have lp: "length ?p = bufferIndex c + nat (nread b)"
      using pending_length[OF Cons.prems(5)] nr by (simp add: seg_data_def)
    from prefix_concat_decompose[OF pre nonempty] obtain k r where kr:
      "k \<le> length frames" "?p = concat (take k frames) @ r"
      "r @ drop (length ?p) (concat frames) = concat (drop k frames)"
      "if k < length frames then strict_prefix r (frames ! k) else r = []"
      "consume_frames (map length frames) (length ?p) = (map length (drop k frames), length r)"
      by blast
    have part: "partial_frame r"
      using kr(4) Cons.prems(1) by (auto simp: partial_frame_def split: if_splits)
    have wh: "\<forall>f \<in> set (take k frames). well_headed f"
      using Cons.prems(1) by (auto dest: in_set_takeD)
    from on_incoming_segment_frames[OF wh seg kr(2) part, of cd handle s] obtain c1 where c1:
      "on_incoming_segment cd handle (\<lambda>s. s) c s b
         = Inr (KeepReading, c1, foldl (deliver cd handle) s (take k frames))"
      "pending c1 = r" "bufferIndex c1 = length r" "length (buffer c1) = length (buffer c)" by blast
    have rest: "drop (length ?p) (concat frames) = concat (map seg_data bs)"
      using Cons.prems(3) by (metis append.assoc append_eq_conv_conj concat.simps(2) list.simps(9))
    have a1: "\<forall>f \<in> set (drop k frames). well_headed f"
      using Cons.prems(1) by (auto dest: in_set_dropD)
    have a2: "\<forall>b \<in> set bs. 0 \<le> nread b \<and> nat (nread b) \<le> length (base b)"
      using Cons.prems(2) by auto
    have a3: "pending c1 @ concat (map seg_data bs) = concat (drop k frames)"
      using kr(3) rest c1(2) by simp
    have a4: "drop k frames \<noteq> [] \<longrightarrow> strict_prefix (pending c1) (hd (drop k frames))"
      using kr(4) c1(2) by (auto simp: hd_drop_conv_nth)
    have a5: "bufferIndex c1 \<le> length (buffer c1)"
      using c1(2,3) by (metis length_take min.cobounded1 pending_def min.absorb4 nat_le_linear take_all)
    have a6: "length (buffer c1) = BUFFER_CAPACITY"
      using c1(4) Cons.prems(6) by simp
    have fit: "segments_fit (map length frames) (bufferIndex c) (b # bs)
        = segments_fit (map length (drop k frames)) (bufferIndex c1) bs"
      using True kr(5) lp c1(3) by simp
    have fold: "foldl (deliver cd handle) (foldl (deliver cd handle) s (take k frames)) (drop k frames)
        = foldl (deliver cd handle) s frames"
      by (metis append_take_drop_id foldl_append)
    note ih = Cons.IH[OF a1 a2 a3 a4 a5 a6, of "foldl (deliver cd handle) s (take k frames)", unfolded fold]
    show ?thesis
      unfolding fit using ih by (simp add: c1(1))
  qed
qed

subsection \<open>The concrete frames\<close>

lemmas frame_eval = valid_frame_def well_headed_def mainnet_magic_def ascii_def
      HEADER_SIZE_def starts_with_magic_def MAGIC_SIZE_def parse_message_header_def
      checksum_match_def CHECKSUM_SIZE_def test_codec_def sum_checksum_def
      parse_buffer_into_message_def c_string_def Let_def
      CMD_VERSION_def CMD_VERACK_def CMD_INV_def CMD_ADDR_def CMD_REJECT_def CMD_PING_def
      CMD_PONG_def CMD_HEADERS_def CMD_BLOCK_def CMD_GETDATA_def

lemma verack_frame_valid: "valid_frame test_codec verack_frame MsgVerack"
  by (simp add: valid_frame_def well_headed_def verack_frame_def mainnet_magic_def ascii_def
      CMD_VERACK_def HEADER_SIZE_def starts_with_magic_def MAGIC_SIZE_def parse_message_header_def
      checksum_match_def CHECKSUM_SIZE_def test_codec_def sum_checksum_def
      parse_buffer_into_message_def c_string_def CMD_VERSION_def Let_def)

lemma ping_frame_valid: "valid_frame test_codec ping_frame (MsgPing \<lparr> nonce = 0x0807060504030201 \<rparr>)"
  by (simp add: frame_eval ping_frame_def)


lemma big_frame_valid: "valid_frame test_codec big_frame (MsgBlock (replicate 65536 0))"
  by (simp add: frame_eval big_frame_def sum_list_replicate)

subsection \<open>Round trip\<close>

text \<open>
  The framing itself is sound: what goes wrong is only the copy. For every sequence of
  valid encoded messages, concatenated and cut into segments anywhere, fed in order to a
  cache with cursor 0: if at every segment the bytes held back plus \<^verbatim>\<open>buf->len\<close> are at
  most 65536, the handler is handed exactly the messages, in order, and the cache is left
  empty; otherwise a copy runs over the end of the array. (The read buffers of the program
  are 65536 bytes long, so they keep the bound only while no byte is held back.) The state \<open>s\<close> is what the
  handler reads and writes; \<^verbatim>\<open>lastHeard\<close>, which the handler never touches, is left out of
  it. With fewer than 24 bytes buffered, extraction hands nothing to the handler (the code
  does read a header then, from stale bytes, but cannot act on it).
\<close>

lemma feed_segments_within_capacity:
  assumes "\<forall>(f, m) \<in> set fms. valid_frame cd f m"
    and "\<forall>b \<in> set bufs. 0 \<le> nread b \<and> nat (nread b) \<le> length (base b)"
    and "concat (map seg_data bufs) = concat (map fst fms)"
    and "bufferIndex c = 0" and "length (buffer c) = BUFFER_CAPACITY"
  shows "(if segments_fit (map (\<lambda>(f, m). length f) fms) 0 bufs
          then \<exists>c'. feed_segments cd handle (\<lambda>s. s) c s bufs
                       = Inr (KeepReading, c', foldl handle s (map snd fms)) \<and> bufferIndex c' = 0
          else feed_segments cd handle (\<lambda>s. s) c s bufs = Inl BufferOverrun)
       \<and> (\<forall>c0 s0. bufferIndex c0 < HEADER_SIZE
             \<longrightarrow> snd (extract_message_from_stream_buffer cd handle c0 s0) = s0)"
proof -
  have a1: "\<forall>f \<in> set (map fst fms). well_headed f"
    using assms(1) by (auto simp: valid_frame_def)
  have a2: "\<forall>b \<in> set bufs. 0 \<le> nread b \<and> nat (nread b) \<le> length (base b)"
    using assms(2) by simp
  have p: "pending c = []" using assms(4) by (simp add: pending_def)
  have a3: "pending c @ concat (map seg_data bufs) = concat (map fst fms)"
    using assms(3) p by simp
  have a4: "map fst fms \<noteq> [] \<longrightarrow> strict_prefix (pending c) (hd (map fst fms))"
  proof
    assume "map fst fms \<noteq> []"
    then have "hd (map fst fms) \<in> set (map fst fms)" by (rule hd_in_set)
    with a1 have "well_headed (hd (map fst fms))" by blast
    then have "hd (map fst fms) \<noteq> []" by (auto simp: well_headed_def HEADER_SIZE_def)
    then show "strict_prefix (pending c) (hd (map fst fms))" using p by (auto simp: strict_prefix_def)
  qed
  have a5: "bufferIndex c \<le> length (buffer c)" using assms(4) by simp
  have l: "map length (map fst fms) = map (\<lambda>(f, m). length f) fms"
    by (simp add: split_beta)
  have f: "foldl (deliver cd handle) s (map fst fms) = foldl handle s (map snd fms)"
    using assms(1) by (intro foldl_deliver_valid) auto
  from feed_segments_frames[OF a1 a2 a3 a4 a5 assms(5), of cd handle s]
  show ?thesis
    unfolding l f assms(4) by (auto simp: extract_short)
qed

text \<open>
  An instance: a verack and a ping frame cut inside the magic of the first, inside its
  header, and across the boundary into the magic of the second, each piece in a buffer of
  exactly its size. The program never reads into such a buffer; the instance shows that
  the bound of the lemma can hold.
\<close>

lemma feed_segments_within_capacity_example:
  "(\<exists>c'. feed_segments test_codec (\<lambda>log m. log @ [m]) (\<lambda>s. s) empty_cache []
          [wire_segment (verack_frame @ ping_frame) 0 2,
           wire_segment (verack_frame @ ping_frame) 2 12,
           wire_segment (verack_frame @ ping_frame) 12 26,
           wire_segment (verack_frame @ ping_frame) 26 56]
       = Inr (KeepReading, c', [MsgVerack, MsgPing \<lparr> nonce = 0x0807060504030201 \<rparr>])
     \<and> bufferIndex c' = 0)
   \<and> snd (extract_message_from_stream_buffer test_codec (\<lambda>log m. log @ [m])
          \<lparr> bufferIndex = 10, buffer = take 10 verack_frame @ replicate 65526 0 \<rparr> []) = []"
proof -
  have v: "\<forall>(f, m) \<in> set [(verack_frame, MsgVerack), (ping_frame, MsgPing \<lparr> nonce = 0x0807060504030201 \<rparr>)].
      valid_frame test_codec f m"
    using verack_frame_valid ping_frame_valid by simp
  have b: "\<forall>b \<in> set [wire_segment (verack_frame @ ping_frame) 0 2,
           wire_segment (verack_frame @ ping_frame) 2 12,
           wire_segment (verack_frame @ ping_frame) 12 26,
           wire_segment (verack_frame @ ping_frame) 26 56].
       0 \<le> nread b \<and> nat (nread b) \<le> length (base b)"
    by (simp add: wire_segment_def verack_frame_def ping_frame_def
        mainnet_magic_def ascii_def CMD_VERACK_def CMD_PING_def)
  have d: "concat (map seg_data [wire_segment (verack_frame @ ping_frame) 0 2,
           wire_segment (verack_frame @ ping_frame) 2 12,
           wire_segment (verack_frame @ ping_frame) 12 26,
           wire_segment (verack_frame @ ping_frame) 26 56])
         = concat (map fst [(verack_frame, MsgVerack), (ping_frame, MsgPing \<lparr> nonce = 0x0807060504030201 \<rparr>)])"
    by (simp add: wire_segment_def seg_data_def verack_frame_def ping_frame_def
        mainnet_magic_def ascii_def CMD_VERACK_def CMD_PING_def)
  have e: "bufferIndex empty_cache = 0" "length (buffer empty_cache) = BUFFER_CAPACITY"
    by (simp_all add: empty_cache_def)
  have fit: "segments_fit
       (map (\<lambda>(f, m). length f) [(verack_frame, MsgVerack), (ping_frame, MsgPing \<lparr> nonce = 0x0807060504030201 \<rparr>)])
       0 [wire_segment (verack_frame @ ping_frame) 0 2,
           wire_segment (verack_frame @ ping_frame) 2 12,
           wire_segment (verack_frame @ ping_frame) 12 26,
           wire_segment (verack_frame @ ping_frame) 26 56]"
    by (simp add: wire_segment_def BUFFER_CAPACITY_def verack_frame_def ping_frame_def
        mainnet_magic_def ascii_def CMD_VERACK_def CMD_PING_def)
  note rt = feed_segments_within_capacity[OF v b d e, of "\<lambda>log m. log @ [m]" "[]", unfolded fit[THEN eqTrueI] if_True]
  have "bufferIndex \<lparr> bufferIndex = 10, buffer = take 10 verack_frame @ replicate 65526 0 \<rparr> < HEADER_SIZE"
    by (simp add: HEADER_SIZE_def)
  with rt have "snd (extract_message_from_stream_buffer test_codec (\<lambda>log m. log @ [m])
          \<lparr> bufferIndex = 10, buffer = take 10 verack_frame @ replicate 65526 0 \<rparr> []) = []"
    by blast
  with rt show ?thesis by (simp del: feed_segments.simps)
qed

text \<open>
  C1 does not hold of the code. A read buffer is the allocation of
  \<^verbatim>\<open>allocate_read_buffer\<close>, 65536 bytes, and \<^verbatim>\<open>on_incoming_segment\<close> copies all of it
  (\<^verbatim>\<open>buf->len\<close> bytes) to the cursor while the cursor advances by \<^verbatim>\<open>nread\<close>. As soon as a read
  leaves bytes of an incomplete frame in the cache, the next copy runs over the end of the
  array. A valid verack frame followed by a valid ping frame, delivered in reads of 2, 10,
  14 and 30 bytes (cuts inside the magic, inside the header, and across the boundary into
  the next magic), is not handed to the handler: the second read overruns the array.
\<close>

theorem framer_round_trip_overrun:
  "valid_frame test_codec verack_frame MsgVerack
   \<and> valid_frame test_codec ping_frame (MsgPing \<lparr> nonce = 0x0807060504030201 \<rparr>)
   \<and> concat (map seg_data
         [libuv_segment (take 2 (verack_frame @ ping_frame)),
          libuv_segment (take 10 (drop 2 (verack_frame @ ping_frame))),
          libuv_segment (take 14 (drop 12 (verack_frame @ ping_frame))),
          libuv_segment (drop 26 (verack_frame @ ping_frame))])
       = verack_frame @ ping_frame
   \<and> feed_segments test_codec (\<lambda>log m. log @ [m]) (\<lambda>s. s) empty_cache []
         [libuv_segment (take 2 (verack_frame @ ping_frame)),
          libuv_segment (take 10 (drop 2 (verack_frame @ ping_frame))),
          libuv_segment (take 14 (drop 12 (verack_frame @ ping_frame))),
          libuv_segment (drop 26 (verack_frame @ ping_frame))]
       = Inl BufferOverrun"
proof -
  have d: "concat (map seg_data
         [libuv_segment (take 2 (verack_frame @ ping_frame)),
          libuv_segment (take 10 (drop 2 (verack_frame @ ping_frame))),
          libuv_segment (take 14 (drop 12 (verack_frame @ ping_frame))),
          libuv_segment (drop 26 (verack_frame @ ping_frame))])
       = verack_frame @ ping_frame"
    by (simp add: libuv_segment_def seg_data_def verack_frame_def ping_frame_def
        mainnet_magic_def ascii_def CMD_VERACK_def CMD_PING_def)
  have 1: "on_incoming_segment test_codec (\<lambda>log m. log @ [m]) (\<lambda>s. s) empty_cache []
        (libuv_segment (take 2 (verack_frame @ ping_frame)))
      = Inr (KeepReading,
             \<lparr> bufferIndex = 2, buffer = take 2 (verack_frame @ ping_frame) @ replicate 65534 0 \<rparr>, [])"
    by (simp add: on_incoming_segment_def libuv_segment_def empty_cache_def BUFFER_CAPACITY_def
      memcpy_def verack_frame_def ping_frame_def mainnet_magic_def ascii_def CMD_VERACK_def
      CMD_PING_def extract_message_from_stream_buffer.simps find_first_magic_def
      find_magic_from.simps MAGIC_SIZE_def)
  have 2: "on_incoming_segment test_codec (\<lambda>log m. log @ [m]) (\<lambda>s. s)
        \<lparr> bufferIndex = 2, buffer = take 2 (verack_frame @ ping_frame) @ replicate 65534 0 \<rparr> []
        (libuv_segment (take 10 (drop 2 (verack_frame @ ping_frame)))) = Inl BufferOverrun"
    by (simp add: on_incoming_segment_def libuv_segment_def verack_frame_def ping_frame_def
        mainnet_magic_def ascii_def CMD_VERACK_def CMD_PING_def)
  have f: "feed_segments test_codec (\<lambda>log m. log @ [m]) (\<lambda>s. s) empty_cache []
         [libuv_segment (take 2 (verack_frame @ ping_frame)),
          libuv_segment (take 10 (drop 2 (verack_frame @ ping_frame))),
          libuv_segment (take 14 (drop 12 (verack_frame @ ping_frame))),
          libuv_segment (drop 26 (verack_frame @ ping_frame))]
       = Inl BufferOverrun"
    by (simp add: 1 2 del: take_append drop_append)
  from verack_frame_valid ping_frame_valid d f show ?thesis by blast
qed

subsection \<open>Overflow\<close>

text \<open>
  C2 does not hold of the code: \<^verbatim>\<open>on_incoming_segment\<close> copies \<^verbatim>\<open>buf->len\<close> bytes to the
  cursor without comparing against the size of the array. A verack frame that arrives in
  two segments of 10 and 14 bytes, each in a libuv buffer of 65536 bytes, makes the second
  copy write 10 bytes past the end of the array. Nor is a declared length compared against
  the capacity: after the 24 header bytes of a frame that declares 65536 payload bytes, the
  framer keeps reading and waits for a frame that cannot fit; nothing signals a replacement.
\<close>

theorem framer_overrun:
  "feed_segments test_codec (\<lambda>log m. log @ [m]) (\<lambda>s. s) empty_cache []
     [libuv_segment (take 10 verack_frame), libuv_segment (drop 10 verack_frame)] = Inl BufferOverrun
   \<and> on_incoming_segment test_codec (\<lambda>log m. log @ [m]) (\<lambda>s. s) empty_cache []
        (wire_segment big_frame 0 24)
       = Inr (KeepReading, \<lparr> bufferIndex = 24, buffer = take 24 big_frame @ replicate 65512 0 \<rparr>, [])"
proof -
  have 1: "on_incoming_segment test_codec (\<lambda>log m. log @ [m]) (\<lambda>s. s) empty_cache []
        (libuv_segment (take 10 verack_frame))
      = Inr (KeepReading, \<lparr> bufferIndex = 10, buffer = take 10 verack_frame @ replicate 65526 0 \<rparr>, [])"
    by (simp add: on_incoming_segment_def libuv_segment_def empty_cache_def BUFFER_CAPACITY_def
      memcpy_def verack_frame_def mainnet_magic_def ascii_def CMD_VERACK_def
      extract_message_from_stream_buffer.simps find_first_magic_def find_magic_from.simps
      starts_with_magic_def MAGIC_SIZE_def parse_message_header_def HEADER_SIZE_def CHECKSUM_SIZE_def)
  have 2: "on_incoming_segment test_codec (\<lambda>log m. log @ [m]) (\<lambda>s. s)
        \<lparr> bufferIndex = 10, buffer = take 10 verack_frame @ replicate 65526 0 \<rparr> []
        (libuv_segment (drop 10 verack_frame)) = Inl BufferOverrun"
    by (simp add: on_incoming_segment_def libuv_segment_def verack_frame_def mainnet_magic_def
        ascii_def CMD_VERACK_def)
  have 3: "on_incoming_segment test_codec (\<lambda>log m. log @ [m]) (\<lambda>s. s) empty_cache []
        (wire_segment big_frame 0 24)
       = Inr (KeepReading, \<lparr> bufferIndex = 24, buffer = take 24 big_frame @ replicate 65512 0 \<rparr>, [])"
    by (simp add: on_incoming_segment_def wire_segment_def empty_cache_def BUFFER_CAPACITY_def
      memcpy_def big_frame_def mainnet_magic_def ascii_def CMD_BLOCK_def
      extract_message_from_stream_buffer.simps find_first_magic_def find_magic_from.simps
      starts_with_magic_def MAGIC_SIZE_def parse_message_header_def HEADER_SIZE_def CHECKSUM_SIZE_def)
  show ?thesis by (simp add: 1 2 3)
qed

subsection \<open>Checksum mismatch\<close>



section \<open>Properties of the protocol handler\<close>

lemmas cmd_defs = CMD_VERSION_def CMD_VERACK_def CMD_INV_def CMD_ADDR_def CMD_REJECT_def CMD_PING_def
      CMD_PONG_def CMD_HEADERS_def CMD_BLOCK_def CMD_GETDATA_def CMD_GETADDR_def CMD_GETHEADERS_def
      CMD_GETBLOCKS_def CMD_SENDHEADERS_def XCMD_BINARY_def

text \<open>
  Recording a latency, pinging and the handshake-success action leave the handshake
  flags, the height and the candidate alone.
\<close>

lemma record_latency_keeps [simp]:
  "handshake (record_latency p l) = handshake p"
  "chain_height (record_latency p l) = chain_height p"
  "candidacy (record_latency p l) = candidacy p"
  "ping (networking (record_latency p l)) = ping (networking p)"
  by (simp_all add: record_latency_def)

lemma ping_peer_keeps [simp]:
  "handshake (fst (ping_peer env p)) = handshake p"
  "chain_height (fst (ping_peer env p)) = chain_height p"
  "candidacy (fst (ping_peer env p)) = candidacy p"
  by (simp_all add: ping_peer_def Let_def)

lemma ping_peer_actions [simp]:
  "snd (ping_peer env p) = [SendMessage CMD_PING (PingpongData \<lparr> nonce = randomNonce env \<rparr>)]"
  by (simp add: ping_peer_def Let_def send_message_def)

lemma on_handshake_success_keeps [simp]:
  "handshake (fst (on_handshake_success env p)) = handshake p"
  "chain_height (fst (on_handshake_success env p)) = chain_height p"
  "candidacy (fst (on_handshake_success env p)) = candidacy p"
  by (simp_all add: on_handshake_success_def Let_def split_beta)

lemma on_handshake_success_actions [simp]:
  "snd (on_handshake_success env p) = handshake_success_actions env (chain_height p)"
  by (simp add: on_handshake_success_def handshake_success_actions_def Let_def split_beta send_message_def)

lemma not_ping_add_addr: "\<not> list_ex is_ping_or_getaddr (add_addr_records rs) \<and> ReplacePeer \<notin> set (add_addr_records rs)"
  by (induction rs) (auto simp: is_ping_or_getaddr_def)

lemma not_ping_headers: "\<not> list_ex is_ping_or_getaddr (map ProcessIncomingBlockHeader hs)"
  by (induction hs) (auto simp: is_ping_or_getaddr_def)

text \<open>
  One message: the flags only ever get set, by an accepted version and by a verack, and
  the handshake-success action is emitted by exactly the version and verack messages
  that leave both flags set.
\<close>

lemma handle_step:
  "acceptThem (handshake (fst (handle_incoming_message minV env p m)))
     = (acceptThem (handshake p) \<or> accepts_version minV m)"
  "acceptUs (handshake (fst (handle_incoming_message minV env p m)))
     = (acceptUs (handshake p) \<or> m = MsgVerack)"
  "(if peer_hand_shaken (fst (handle_incoming_message minV env p m)) \<and> (is_version m \<or> m = MsgVerack)
    then snd (handle_incoming_message minV env p m)
         = verack_reply m @ handshake_success_actions env (chain_height (fst (handle_incoming_message minV env p m)))
    else \<not> list_ex is_ping_or_getaddr (snd (handle_incoming_message minV env p m))
         \<and> ReplacePeer \<notin> set (snd (handle_incoming_message minV env p m)))"
    apply (cases m; simp add: handle_incoming_message_def Let_def accepts_version_def split_beta peer_hand_shaken_def)
   apply (cases m; simp add: handle_incoming_message_def Let_def accepts_version_def split_beta peer_hand_shaken_def)
  apply (cases m; auto simp add: handle_incoming_message_def Let_def accepts_version_def split_beta peer_hand_shaken_def
        is_version_def verack_reply_def send_message_def not_ping_add_addr not_ping_headers is_ping_or_getaddr_def cmd_defs)
  done

lemma run_messages_invariant:
  "k < length steps \<Longrightarrow>
   acceptThem (handshake (fst (run_messages minV p steps ! k)))
     = (acceptThem (handshake p) \<or> list_ex (accepts_version minV) (map snd (take (Suc k) steps)))
   \<and> acceptUs (handshake (fst (run_messages minV p steps ! k)))
     = (acceptUs (handshake p) \<or> list_ex (\<lambda>m. m = MsgVerack) (map snd (take (Suc k) steps)))
   \<and> (if peer_hand_shaken (fst (run_messages minV p steps ! k))
          \<and> (is_version (snd (steps ! k)) \<or> snd (steps ! k) = MsgVerack)
       then snd (run_messages minV p steps ! k)
            = verack_reply (snd (steps ! k))
              @ handshake_success_actions (fst (steps ! k)) (chain_height (fst (run_messages minV p steps ! k)))
       else \<not> list_ex is_ping_or_getaddr (snd (run_messages minV p steps ! k))
            \<and> ReplacePeer \<notin> set (snd (run_messages minV p steps ! k)))"
proof (induction steps arbitrary: p k)
  case Nil
  then show ?case by simp
next
  case (Cons step rest)
  obtain env m where step: "step = (env, m)" by (cases step)
  show ?case
  proof (cases k)
    case 0
    then show ?thesis
      using handle_step[of minV env p m] by (simp add: step split_beta Let_def)
  next
    case (Suc j)
    with Cons.prems have j: "j < length rest" by simp
    from Cons.IH[OF j, of "fst (handle_incoming_message minV env p m)"] 
    show ?thesis
      using handle_step(1,2)[of minV env p m] by (simp add: step Suc split_beta Let_def)
  qed
qed

subsection \<open>Handshake completion\<close>

text \<open>
  C7, as the code has it. For every sequence of messages received by a peer whose
  handshake flags are clear, and every position \<open>k\<close> in it: the peer is handshaken after
  message \<open>k\<close> exactly if an accepted version and a verack are among the messages up to
  \<open>k\<close>. The handshake-success action runs at message \<open>k\<close> exactly if that holds and message
  \<open>k\<close> is a version or a verack: so it runs at the first point where both have been
  observed, and again at every later version or verack (the code keeps no record that
  it ran). Each run replaces the peer (IBD mode, peer below the local height) or sends
  getaddr if the candidate count is below the threshold and then a ping. At every other
  message, in particular before the handshake is complete, no ping and no getaddr is
  sent and the peer is not replaced.
\<close>

theorem handshake_success_runs:
  assumes "\<not> acceptThem (handshake p)" and "\<not> acceptUs (handshake p)" and "k < length steps"
  shows "(let (env, m) = steps ! k;
              (p', acts) = run_messages minV p steps ! k;
              completed = handshake_observed minV (map snd (take (Suc k) steps))
          in peer_hand_shaken p' = completed
           \<and> (if completed \<and> (is_version m \<or> m = MsgVerack)
              then acts = verack_reply m @ handshake_success_actions env (chain_height p')
              else \<not> list_ex is_ping_or_getaddr acts \<and> ReplacePeer \<notin> set acts))"
proof -
  have c: "peer_hand_shaken (fst (run_messages minV p steps ! k))
      = handshake_observed minV (map snd (take (Suc k) steps))"
    using run_messages_invariant[OF assms(3), of minV p] assms(1,2)
    by (simp add: peer_hand_shaken_def handshake_observed_def)
  show ?thesis
    using run_messages_invariant[OF assms(3), of minV p] c
    by (simp add: split_beta Let_def)
qed

text \<open>
  The theorem at the third message of version, verack, verack: the handshake is complete
  there, and was not after the first message.
\<close>

theorem handshake_success_runs_witness:
  "(let (env, m) = handshake_steps ! 2;
        (p', acts) = run_messages 31800 fresh_peer handshake_steps ! 2;
        completed = handshake_observed 31800 (map snd (take (Suc 2) handshake_steps))
    in peer_hand_shaken p' = completed
     \<and> (if completed \<and> (is_version m \<or> m = MsgVerack)
        then acts = verack_reply m @ handshake_success_actions env (chain_height p')
        else \<not> list_ex is_ping_or_getaddr acts \<and> ReplacePeer \<notin> set acts))
   \<and> handshake_observed 31800 (map snd (take (Suc 2) handshake_steps))
   \<and> \<not> handshake_observed 31800 (map snd (take (Suc 0) handshake_steps))"
proof -
  have a: "\<not> acceptThem (handshake fresh_peer)" "\<not> acceptUs (handshake fresh_peer)"
    by (simp_all add: fresh_peer_def)
  have k: "2 < length handshake_steps" by (simp add: handshake_steps_def)
  have o: "handshake_observed 31800 (map snd (take (Suc 2) handshake_steps))"
     "\<not> handshake_observed 31800 (map snd (take (Suc 0) handshake_steps))"
    by (simp_all add: handshake_observed_def handshake_steps_def accepts_version_def version_payload_def)
  show ?thesis
    using handshake_success_runs[OF a k, of 31800] o by simp
qed

text \<open>
  C7 as stated fails: on version, verack, verack the handshake-success action runs
  twice. Getaddr and ping are sent after the first verack and again after the second.
\<close>

theorem handshake_success_runs_counterexample:
  "map snd (run_messages 31800 fresh_peer handshake_steps)
     = [[],
        [SendMessage CMD_VERACK NoData, SendMessage CMD_GETADDR NoData,
         SendMessage CMD_PING (PingpongData \<lparr> nonce = 12 \<rparr>)],
        [SendMessage CMD_VERACK NoData, SendMessage CMD_GETADDR NoData,
         SendMessage CMD_PING (PingpongData \<lparr> nonce = 13 \<rparr>)]]"
  by (simp add: handshake_steps_def fresh_peer_def quiet_env_def version_payload_def
      handle_incoming_message_def Let_def peer_hand_shaken_def on_handshake_success_def
      ping_peer_def send_message_def config_def record_latency_def split_beta cmd_defs)

subsection \<open>Pong\<close>

text \<open>
  C8. A pong emits nothing. If its nonce equals the peer's ping nonce, \<^verbatim>\<open>pongReceived\<close>
  is set to now and exactly one latency sample, now minus \<^verbatim>\<open>pingSent\<close>, is recorded: the
  peer's networking state is that of one \<^verbatim>\<open>record_latency\<close>, the count of samples grows by
  one and the ring changes in the one slot. If the nonce differs, the networking state,
  with the latency ring and the ping state, is unchanged.
\<close>

theorem pong_nonce_law:
  "snd (handle_incoming_message minV env p (MsgPong payload)) = []
   \<and> (if nonce payload = ping_nonce (ping (networking p))
      then networking (fst (handle_incoming_message minV env p (MsgPong payload)))
             = networking (record_latency
                 (p\<lparr> networking := (networking p)\<lparr> ping := (ping (networking p))\<lparr> pongReceived := now env \<rparr> \<rparr> \<rparr>)
                 (now env - pingSent (ping (networking p))))
         \<and> latencyIndex (networking (fst (handle_incoming_message minV env p (MsgPong payload))))
             = latencyIndex (networking p) + 1
         \<and> latencies (networking (fst (handle_incoming_message minV env p (MsgPong payload))))
             = (latencies (networking p))
                 [latencyIndex (networking p) mod length (latencies (networking p))
                    := now env - pingSent (ping (networking p))]
         \<and> pongReceived (ping (networking (fst (handle_incoming_message minV env p (MsgPong payload)))))
             = now env
      else networking (fst (handle_incoming_message minV env p (MsgPong payload))) = networking p)"
  by (simp add: handle_incoming_message_def Let_def record_latency_def)

text \<open>
  The theorem at a peer with ping nonce 77 sent at 5000 ms: a pong with nonce 77 at
  5250 ms records the sample 250, a pong with nonce 78 records nothing.
\<close>

theorem pong_nonce_law_witness:
  "snd (handle_incoming_message 31800 (quiet_env 0 5250) pinged_peer (MsgPong \<lparr> nonce = 77 \<rparr>)) = []
   \<and> latencies (networking (fst (handle_incoming_message 31800 (quiet_env 0 5250) pinged_peer
          (MsgPong \<lparr> nonce = 77 \<rparr>)))) = [250, 0, 0]
   \<and> latencyIndex (networking (fst (handle_incoming_message 31800 (quiet_env 0 5250) pinged_peer
          (MsgPong \<lparr> nonce = 77 \<rparr>)))) = 1
   \<and> networking (fst (handle_incoming_message 31800 (quiet_env 0 5250) pinged_peer
          (MsgPong \<lparr> nonce = 78 \<rparr>))) = networking pinged_peer"
proof -
  have n: "ping_nonce (ping (networking pinged_peer)) = 77"
    "pingSent (ping (networking pinged_peer)) = 5000"
    "latencies (networking pinged_peer) = [0, 0, 0]"
    "latencyIndex (networking pinged_peer) = 0"
    "now (quiet_env 0 5250) = 5250"
    by (simp_all add: pinged_peer_def fresh_peer_def quiet_env_def)
  from pong_nonce_law[of 31800 "quiet_env 0 5250" pinged_peer "\<lparr> nonce = 77 \<rparr>"]
  have a: "snd (handle_incoming_message 31800 (quiet_env 0 5250) pinged_peer (MsgPong \<lparr> nonce = 77 \<rparr>)) = []"
    and b: "latencies (networking (fst (handle_incoming_message 31800 (quiet_env 0 5250) pinged_peer
          (MsgPong \<lparr> nonce = 77 \<rparr>)))) = [250, 0, 0]"
    and c: "latencyIndex (networking (fst (handle_incoming_message 31800 (quiet_env 0 5250) pinged_peer
          (MsgPong \<lparr> nonce = 77 \<rparr>)))) = 1"
    by (simp_all add: n record_latency_def)
  from pong_nonce_law[of 31800 "quiet_env 0 5250" pinged_peer "\<lparr> nonce = 78 \<rparr>"]
  have d: "networking (fst (handle_incoming_message 31800 (quiet_env 0 5250) pinged_peer
          (MsgPong \<lparr> nonce = 78 \<rparr>))) = networking pinged_peer"
    by (simp add: n)
  from a b c d show ?thesis by blast
qed

subsection \<open>Version\<close>

text \<open>
  C10. On any version message the peer's \<^verbatim>\<open>chain_height\<close> becomes the payload's
  \<^verbatim>\<open>start_height\<close> and the bound candidate's service bits become the payload's \<^verbatim>\<open>services\<close>,
  whatever the payload's version. If the version is below the minimum, the acceptance
  flag is left as it was; if it was clear, the peer is not handshaken after the message
  and nothing is emitted.
\<close>

theorem version_updates_height_and_services:
  "chain_height (fst (handle_incoming_message minV env p (MsgVersion payload))) = start_height payload
   \<and> na_services (net_addr (addr (candidacy (fst (handle_incoming_message minV env p (MsgVersion payload))))))
       = services payload
   \<and> (sint (version payload) < minV \<longrightarrow>
        acceptThem (handshake (fst (handle_incoming_message minV env p (MsgVersion payload))))
          = acceptThem (handshake p)
        \<and> (\<not> acceptThem (handshake p) \<longrightarrow>
             \<not> peer_hand_shaken (fst (handle_incoming_message minV env p (MsgVersion payload)))
             \<and> snd (handle_incoming_message minV env p (MsgVersion payload)) = []))"
  by (simp add: handle_incoming_message_def Let_def peer_hand_shaken_def)

text \<open>
  The theorem at a version message with version 209, below the minimum 31800.
\<close>

theorem version_updates_height_and_services_witness:
  "sint (209 :: 32 word) < 31800
   \<and> chain_height (fst (handle_incoming_message 31800 (quiet_env 0 1000) fresh_peer
        (MsgVersion (version_payload 209)))) = 600000
   \<and> na_services (net_addr (addr (candidacy (fst (handle_incoming_message 31800 (quiet_env 0 1000) fresh_peer
        (MsgVersion (version_payload 209))))))) = 1
   \<and> \<not> acceptThem (handshake (fst (handle_incoming_message 31800 (quiet_env 0 1000) fresh_peer
        (MsgVersion (version_payload 209)))))
   \<and> snd (handle_incoming_message 31800 (quiet_env 0 1000) fresh_peer (MsgVersion (version_payload 209))) = []"
  using version_updates_height_and_services[of 31800 "quiet_env 0 1000" fresh_peer "version_payload 209"]
  by (simp add: fresh_peer_def version_payload_def)

section \<open>Properties of the arithmetic of doubles\<close>

text \<open>
  The binade of a number brackets it, and rounding is monotone and leaves the integers up
  to \<open>2\<^sup>5\<^sup>2\<close> as they are.
\<close>

lemma pow2_Suc: "(2::real) powi (k + 1) = 2 * 2 powi k"
  by (simp add: power_int_add)

lemma binade_up_bounds:
  "1 \<le> a \<Longrightarrow> e \<le> 1024 \<Longrightarrow>
     e \<le> binade_up a e \<and> binade_up a e \<le> 1024
     \<and> 2 powi (binade_up a e - e) \<le> a
     \<and> (a < 2 powi (binade_up a e - e + 1) \<or> binade_up a e = 1024)"
proof (induction a e rule: binade_up.induct)
  case (1 a e)
  show ?case
  proof (cases "2 \<le> a \<and> e < 1024")
    case True
    define d where "d = binade_up (a / 2) (e + 1) - (e + 1)"
    have eq: "binade_up a e = binade_up (a / 2) (e + 1)"
      using True by (subst binade_up.simps) simp
    have ih: "e + 1 \<le> binade_up (a / 2) (e + 1)" "binade_up (a / 2) (e + 1) \<le> 1024"
       "2 powi d \<le> a / 2"
       "a / 2 < 2 powi (d + 1) \<or> binade_up (a / 2) (e + 1) = 1024"
      using "1.IH" True unfolding d_def by simp_all
    have k: "binade_up a e - e = d + 1" "binade_up a e - e + 1 = (d + 1) + 1"
      unfolding eq d_def by simp_all
    have "2 powi (d + 1) \<le> a"
      using ih(3) unfolding pow2_Suc by simp
    moreover have "a < 2 powi ((d + 1) + 1) \<or> binade_up a e = 1024"
      using ih(4) unfolding eq pow2_Suc[of "d + 1"] by auto
    ultimately show ?thesis
      unfolding k using ih(1,2) unfolding eq[symmetric] by simp
  next
    case False
    then have eq: "binade_up a e = e"
      by (subst binade_up.simps) auto
    show ?thesis
      using False "1.prems" by (auto simp: eq)
  qed
qed

lemma binade_down_bounds:
  "0 \<le> a \<Longrightarrow> a < 2 \<Longrightarrow> - 1022 \<le> e \<Longrightarrow>
     binade_down a e \<le> e \<and> - 1022 \<le> binade_down a e
     \<and> a < 2 powi (binade_down a e - e + 1)
     \<and> (2 powi (binade_down a e - e) \<le> a \<or> binade_down a e = - 1022)"
proof (induction a e rule: binade_down.induct)
  case (1 a e)
  show ?case
  proof (cases "a < 1 \<and> - 1022 < e")
    case True
    define d where "d = binade_down (a * 2) (e - 1) - e"
    have eq: "binade_down a e = binade_down (a * 2) (e - 1)"
      using True by (subst binade_down.simps) simp
    have d1: "binade_down (a * 2) (e - 1) - (e - 1) = d + 1"
      "binade_down (a * 2) (e - 1) - (e - 1) + 1 = (d + 1) + 1"
      unfolding d_def by simp_all
    have ih: "binade_down (a * 2) (e - 1) \<le> e - 1" "- 1022 \<le> binade_down (a * 2) (e - 1)"
       "a * 2 < 2 powi ((d + 1) + 1)"
       "2 powi (d + 1) \<le> a * 2 \<or> binade_down (a * 2) (e - 1) = - 1022"
      using "1.IH" True "1.prems" unfolding d1[symmetric] by simp_all
    have "a < 2 powi (d + 1)"
      using ih(3) unfolding pow2_Suc[of "d + 1"] by simp
    moreover have "2 powi d \<le> a \<or> binade_down a e = - 1022"
      using ih(4) unfolding eq pow2_Suc[of d] by auto
    moreover have "binade_down a e - e = d" "binade_down a e - e + 1 = d + 1"
      unfolding eq d_def by simp_all
    ultimately show ?thesis
      using ih(1,2) unfolding eq[symmetric] by simp
  next
    case False
    then have eq: "binade_down a e = e"
      by (subst binade_down.simps) auto
    show ?thesis
      using False "1.prems" by (auto simp: eq)
  qed
qed

lemma binade_spec:
  assumes "0 \<le> a"
  shows "- 1022 \<le> binade a" and "binade a \<le> 1024"
    and "a < 2 powi (binade a + 1) \<or> binade a = 1024"
    and "2 powi (binade a) \<le> a \<or> binade a = - 1022"
proof -
  show "- 1022 \<le> binade a" "binade a \<le> 1024"
    "a < 2 powi (binade a + 1) \<or> binade a = 1024" "2 powi (binade a) \<le> a \<or> binade a = - 1022"
    using binade_up_bounds[of a 0] binade_down_bounds[of a 0] assms
    by (auto simp: binade_def)
qed

lemma binade_mono:
  assumes "0 \<le> a" "a \<le> b"
  shows "binade a \<le> binade b"
proof (rule ccontr)
  assume "\<not> binade a \<le> binade b"
  then have lt: "binade b < binade a" by simp
  have b0: "0 \<le> b" using assms by simp
  from lt binade_spec(1)[OF b0] have "binade a \<noteq> - 1022" by simp
  with binade_spec(4)[OF assms(1)] have 1: "2 powi (binade a) \<le> a" by simp
  from lt binade_spec(2)[OF assms(1)] have "binade b \<noteq> 1024" by simp
  with binade_spec(3)[OF b0] have 2: "b < 2 powi (binade b + 1)" by simp
  have "(2::real) powi (binade b + 1) \<le> 2 powi (binade a)"
    using lt by (intro power_int_increasing) auto
  with 1 2 assms(2) show False by simp
qed


lemma pow2_split52: "(2::real) powi e = 2 ^ 52 * 2 powi (e - 52)"
proof -
  have "(2::real) powi e = 2 powi (52 + (e - 52))"
    by (rule arg_cong[where f = "\<lambda>k. 2 powi k"]) simp
  also have "\<dots> = 2 powi 52 * 2 powi (e - 52)" by (subst power_int_add) auto
  finally show ?thesis by simp
qed

lemma pow2_split53: "(2::real) powi (e + 1) = 2 ^ 53 * 2 powi (e - 52)"
proof -
  have "(2::real) powi (e + 1) = 2 powi (53 + (e - 52))"
    by (rule arg_cong[where f = "\<lambda>k. 2 powi k"]) simp
  also have "\<dots> = 2 powi 53 * 2 powi (e - 52)" by (subst power_int_add) auto
  finally show ?thesis by simp
qed

lemma round_half_even_int: "round_half_even (of_int n) = n"
  by (simp add: round_half_even_def)

lemma round_half_even_bounds: "\<lfloor>y\<rfloor> \<le> round_half_even y" "round_half_even y \<le> \<lfloor>y\<rfloor> + 1"
  by (simp_all add: round_half_even_def Let_def)

lemma round_half_even_mono:
  assumes "x \<le> y"
  shows "round_half_even x \<le> round_half_even y"
proof (cases "\<lfloor>x\<rfloor> = \<lfloor>y\<rfloor>")
  case True
  then show ?thesis
    using assms by (auto simp: round_half_even_def Let_def)
next
  case False
  with assms have "\<lfloor>x\<rfloor> < \<lfloor>y\<rfloor>"
    using floor_mono[OF assms] by simp
  then show ?thesis
    using round_half_even_bounds(2)[of x] round_half_even_bounds(1)[of y] by simp
qed

lemma round_magnitude_nonneg: "0 \<le> a \<Longrightarrow> 0 \<le> round_magnitude a"
proof -
  assume a: "0 \<le> a"
  have q: "(0::real) < 2 powi (binade a - 52)" by simp
  have "0 \<le> a / 2 powi (binade a - 52)" using a by simp
  then have "0 \<le> \<lfloor>a / 2 powi (binade a - 52)\<rfloor>" by simp
  then have "0 \<le> round_half_even (a / 2 powi (binade a - 52))"
    using round_half_even_bounds(1)[of "a / 2 powi (binade a - 52)"] by linarith
  then show ?thesis
    by (simp add: round_magnitude_def Let_def)
qed

lemma round_magnitude_mono:
  assumes "0 \<le> a" "a \<le> b"
  shows "round_magnitude a \<le> round_magnitude b"
proof -
  have b0: "0 \<le> b" using assms by simp
  have le: "binade a \<le> binade b" by (rule binade_mono[OF assms])
  show ?thesis
  proof (cases "binade a = binade b")
    case True
    have "a / 2 powi (binade b - 52) \<le> b / 2 powi (binade b - 52)"
      using assms(2) by (simp add: divide_right_mono)
    from round_half_even_mono[OF this] show ?thesis
      by (simp add: round_magnitude_def Let_def True)
  next
    case False
    with le have lt: "binade a < binade b" by simp
    define qa where "qa = (2::real) powi (binade a - 52)"
    define qb where "qb = (2::real) powi (binade b - 52)"
    have qa: "0 < qa" and qb: "0 < qb" by (simp_all add: qa_def qb_def)
    from lt binade_spec(2)[OF b0] have "binade a \<noteq> 1024" by simp
    with binade_spec(3)[OF assms(1)] have "a < 2 powi (binade a + 1)" by simp
    then have "a < 2 ^ 53 * qa" unfolding qa_def pow2_split53[symmetric] .
    then have "a / qa \<le> of_int (2 ^ 53)" using qa by (simp add: field_simps)
    from round_half_even_mono[OF this] have "round_half_even (a / qa) \<le> 2 ^ 53"
      unfolding round_half_even_int .
    then have "real_of_int (round_half_even (a / qa)) \<le> 2 ^ 53"
      by simp
    then have 1: "round_magnitude a \<le> 2 powi (binade a + 1)"
      unfolding pow2_split53 round_magnitude_def Let_def qa_def[symmetric]
      using qa by (simp add: mult_right_mono)
    from lt binade_spec(1)[OF assms(1)] have "binade b \<noteq> - 1022" by simp
    with binade_spec(4)[OF b0] have "2 powi (binade b) \<le> b" by simp
    then have "2 ^ 52 * qb \<le> b" unfolding qb_def pow2_split52[symmetric] .
    then have "of_int (2 ^ 52) \<le> b / qb" using qb by (simp add: field_simps)
    from round_half_even_mono[OF this] have "2 ^ 52 \<le> round_half_even (b / qb)"
      unfolding round_half_even_int .
    then have "2 ^ 52 \<le> real_of_int (round_half_even (b / qb))"
      by simp
    then have 2: "2 powi (binade b) \<le> round_magnitude b"
      unfolding pow2_split52[of "binade b"] round_magnitude_def Let_def qb_def[symmetric]
      using qb by (simp add: mult_right_mono)
    have "(2::real) powi (binade a + 1) \<le> 2 powi (binade b)"
      using lt by (intro power_int_increasing) auto
    with 1 2 show ?thesis by simp
  qed
qed

lemma round_magnitude_int:
  assumes "0 \<le> n" "n \<le> 2 ^ 52"
  shows "round_magnitude (of_int n) = of_int n"
proof -
  define e where "e = binade (of_int n)"
  have n0: "(0::real) \<le> of_int n" using assms by simp
  have e52: "e \<le> 52"
  proof (rule ccontr)
    assume "\<not> e \<le> 52"
    then have e: "53 \<le> e" by simp
    then have "e \<noteq> - 1022" by simp
    with binade_spec(4)[OF n0] have "2 powi e \<le> real_of_int n" by (simp add: e_def)
    moreover have "(2::real) powi 53 \<le> 2 powi e"
      using e by (intro power_int_increasing) auto
    moreover have "real_of_int n \<le> 2 ^ 52" using assms(2) by simp
    ultimately show False by simp
  qed
  define k where "k = nat (52 - e)"
  have "(2::real) powi (e - 52) = 2 powi (- int k)" using e52 by (simp add: k_def)
  also have "\<dots> = 1 / 2 ^ k" by (simp add: power_int_minus field_simps)
  finally have q: "(2::real) powi (e - 52) = 1 / 2 ^ k" .
  have "real_of_int n / (1 / 2 ^ k) = of_int (n * 2 ^ k)" by simp
  then have "round_half_even (real_of_int n / (1 / 2 ^ k)) = n * 2 ^ k"
    using round_half_even_int[of "n * 2 ^ k"] by simp
  then show ?thesis
    by (simp add: round_magnitude_def Let_def e_def[symmetric] q)
qed

lemma round_magnitude_zero: "round_magnitude 0 = 0"
  using round_magnitude_int[of 0] by simp

lemma pow2_1024_pos: "(0::real) < 2 powi 1024"
  by (rule zero_less_power_int) simp

lemma pow2_52_less: "(2::real) ^ 52 < 2 powi 1024"
proof -
  have a: "(2::real) ^ 52 = 2 powi 52" by simp
  have b: "(2::real) powi 52 < 2 powi 1024"
    by (rule power_int_strict_increasing) auto
  show ?thesis unfolding a by (rule b)
qed

lemma round_double_not_nan: "round_double x \<noteq> NotANumber"
  by (simp add: round_double_def Let_def)

lemma double_le_refl: "x \<noteq> NotANumber \<Longrightarrow> double_le x x"
  by (cases x) simp_all

lemma double_le_minus_infinity: "y \<noteq> NotANumber \<Longrightarrow> double_le MinusInfinity y"
  by (cases y) simp_all

lemma double_le_plus_infinity: "x \<noteq> NotANumber \<Longrightarrow> double_le x PlusInfinity"
  by (cases x) simp_all

lemma round_double_nonneg:
  assumes "0 \<le> x"
  shows "round_double x = (if 2 powi 1024 \<le> round_magnitude x then PlusInfinity
                           else Finite (round_magnitude x))"
proof (cases "x = 0")
  case True
  then show ?thesis
    by (simp add: round_double_def Let_def round_magnitude_zero not_le del: power_int_numeral)
next
  case False
  with assms show ?thesis
    by (simp add: round_double_def Let_def del: power_int_numeral)
qed

lemma round_double_neg:
  assumes "x < 0"
  shows "round_double x = (if 2 powi 1024 \<le> round_magnitude (- x) then MinusInfinity
                           else Finite (- round_magnitude (- x)))"
  using assms by (simp add: round_double_def Let_def del: power_int_numeral)

lemma round_double_mono:
  assumes "x \<le> y"
  shows "double_le (round_double x) (round_double y)"
proof -
  consider "0 \<le> x" | "x < 0" "0 \<le> y" | "y < 0" by linarith
  then show ?thesis
  proof cases
    case 1
    then have y: "0 \<le> y" using assms by simp
    have m: "round_magnitude x \<le> round_magnitude y"
      using 1 assms by (rule round_magnitude_mono)
    show ?thesis
      unfolding round_double_nonneg[OF 1] round_double_nonneg[OF y]
      using m by (simp del: power_int_numeral)
  next
    case 2
    have "0 \<le> round_magnitude (- x)" "0 \<le> round_magnitude y"
      using 2 by (simp_all add: round_magnitude_nonneg)
    then show ?thesis
      unfolding round_double_neg[OF 2(1)] round_double_nonneg[OF 2(2)]
      by (simp del: power_int_numeral)
  next
    case 3
    then have x: "x < 0" using assms by simp
    have m: "round_magnitude (- y) \<le> round_magnitude (- x)"
      using 3 assms by (intro round_magnitude_mono) auto
    show ?thesis
      unfolding round_double_neg[OF 3] round_double_neg[OF x]
      using m by (simp del: power_int_numeral)
  qed
qed

lemma round_double_int:
  assumes "\<bar>n\<bar> \<le> 2 ^ 52"
  shows "round_double (of_int n) = Finite (of_int n)"
proof (cases "0 \<le> n")
  case True
  then have n0: "(0::real) \<le> of_int n" by simp
  have m: "round_magnitude (real_of_int n) = real_of_int n"
    using assms True by (intro round_magnitude_int) auto
  have "real_of_int n \<le> 2 ^ 52" using assms True by simp
  with pow2_52_less have lt: "\<not> 2 powi 1024 \<le> real_of_int n" by linarith
  show ?thesis
    unfolding round_double_nonneg[OF n0] m using lt by (simp del: power_int_numeral)
next
  case False
  then have n0: "real_of_int n < 0" by simp
  have "round_magnitude (real_of_int (- n)) = real_of_int (- n)"
    using assms False by (intro round_magnitude_int) auto
  then have m: "round_magnitude (- real_of_int n) = - real_of_int n" by simp
  have "real_of_int (- n) \<le> 2 ^ 52" using assms False by simp
  then have "- real_of_int n \<le> 2 ^ 52" by simp
  with pow2_52_less have lt: "\<not> 2 powi 1024 \<le> - real_of_int n" by linarith
  show ?thesis
    unfolding round_double_neg[OF n0] m using lt by (simp del: power_int_numeral)
qed

lemma round_double_between:
  assumes "of_int m \<le> v" "v \<le> of_int n" "\<bar>m\<bar> \<le> 2 ^ 52" "\<bar>n\<bar> \<le> 2 ^ 52"
  shows "\<exists>w. round_double v = Finite w \<and> of_int m \<le> w \<and> w \<le> of_int n"
proof -
  have 1: "double_le (Finite (of_int m)) (round_double v)"
    using round_double_mono[OF assms(1)] unfolding round_double_int[OF assms(3)] .
  have 2: "double_le (round_double v) (Finite (of_int n))"
    using round_double_mono[OF assms(2)] unfolding round_double_int[OF assms(4)] .
  from 1 2 show ?thesis
    by (cases "round_double v") simp_all
qed

lemma round_double_close:
  assumes "\<bar>v\<bar> \<le> 2 ^ 52"
  shows "\<exists>w. round_double v = Finite w \<and> v - 1 < w \<and> w < v + 1"
proof -
  have "\<lfloor>real_of_int (- (2 ^ 52))\<rfloor> \<le> \<lfloor>v\<rfloor>"
    by (rule floor_mono) (use assms in simp)
  then have f: "- (2 ^ 52) \<le> \<lfloor>v\<rfloor>" unfolding floor_of_int .
  have "\<lceil>v\<rceil> \<le> \<lceil>real_of_int (2 ^ 52)\<rceil>"
    by (rule ceiling_mono) (use assms in simp)
  then have c: "\<lceil>v\<rceil> \<le> 2 ^ 52" unfolding ceiling_of_int .
  have fc: "\<lfloor>v\<rfloor> \<le> \<lceil>v\<rceil>" by (rule floor_le_ceiling)
  have af: "\<bar>\<lfloor>v\<rfloor>\<bar> \<le> 2 ^ 52" and ac: "\<bar>\<lceil>v\<rceil>\<bar> \<le> 2 ^ 52"
    using f c fc by linarith+
  from round_double_between[OF of_int_floor_le le_of_int_ceiling af ac] obtain w where
    w: "round_double v = Finite w" "of_int \<lfloor>v\<rfloor> \<le> w" "w \<le> of_int \<lceil>v\<rceil>" by blast
  have "v - 1 < of_int \<lfloor>v\<rfloor>" "of_int \<lceil>v\<rceil> < v + 1" by linarith+
  with w(2,3) have "v - 1 < w" "w < v + 1" by linarith+
  with w(1) show ?thesis by blast
qed

lemma double_add_mono_left:
  assumes "double_le x y"
  shows "double_le (double_add x (Finite z)) (double_add y (Finite z))"
  using assms
  by (cases x; cases y)
     (simp_all add: round_double_mono double_le_minus_infinity double_le_plus_infinity
        round_double_not_nan)

lemma double_add_mono_right:
  assumes "double_le x y"
  shows "double_le (double_add (Finite z) x) (double_add (Finite z) y)"
  using assms
  by (cases x; cases y)
     (simp_all add: round_double_mono double_le_minus_infinity double_le_plus_infinity
        round_double_not_nan)

lemma double_add_mono_finite:
  assumes "a \<le> b" "l \<noteq> NotANumber"
  shows "double_le (double_add (Finite a) l) (double_add (Finite b) l)"
  using assms by (cases l) (simp_all add: round_double_mono)

text \<open>
  Below \<open>2\<^sup>-\<^sup>1\<^sup>0\<^sup>2\<^sup>2\<close> a number is in the subnormal binade, from \<open>2\<^sup>1\<^sup>0\<^sup>2\<^sup>4\<close> on in the overflow
  binade. The smallest positive double is \<open>2\<^sup>-\<^sup>1\<^sup>0\<^sup>7\<^sup>4\<close>: its half rounds to zero, and 2000
  divided by it overflows.
\<close>

lemma binade_tiny:
  assumes "0 \<le> a" "a < 2 powi (- 1022)"
  shows "binade a = - 1022"
proof (rule ccontr)
  assume n: "binade a \<noteq> - 1022"
  with binade_spec(4)[OF assms(1)] have 1: "2 powi (binade a) \<le> a" by simp
  have "(2::real) powi (- 1022) \<le> 2 powi (binade a)"
    using binade_spec(1)[OF assms(1)] by (intro power_int_increasing) auto
  with 1 assms(2) show False by linarith
qed

lemma binade_huge:
  assumes "2 powi 1024 \<le> a"
  shows "binade a = 1024"
proof (rule ccontr)
  assume n: "binade a \<noteq> 1024"
  have a0: "0 \<le> a" using assms zero_less_power_int[of "2::real" 1024] by linarith
  from n binade_spec(3)[OF a0] have 1: "a < 2 powi (binade a + 1)" by simp
  have "(2::real) powi (binade a + 1) \<le> 2 powi 1024"
    using binade_spec(2)[OF a0] n by (intro power_int_increasing) auto
  with 1 assms show False by linarith
qed

lemma round_double_tiny:
  "round_double (1 / 2 ^ 1074) = Finite (1 / 2 ^ 1074)"
  "round_double (1 / 2 ^ 1074 / 2) = Finite 0"
  by (simp_all add: round_double_def round_magnitude_def round_half_even_def binade_tiny
      power_int_minus)

lemma round_double_huge:
  "round_double (2000 / (1 / 2 ^ 1074)) = PlusInfinity"
  by (simp add: round_double_def round_magnitude_def round_half_even_def binade_huge
      power_int_minus)

text \<open>
  The half of a positive double, as the division rounds it, is not negative and not above
  the double.
\<close>

lemma double_halve_bounds:
  assumes "round_double l = Finite l" "0 < l" "double_div (Finite l) (Finite 2) = Finite g"
  shows "0 \<le> g \<and> g \<le> l"
proof -
  have g: "round_double (l / 2) = Finite g" using assms(3) by simp
  have z: "round_double 0 = Finite 0" using round_double_int[of 0] by simp
  have "double_le (round_double 0) (round_double (l / 2))"
    by (rule round_double_mono) (use assms(2) in simp)
  then have 1: "0 \<le> g" unfolding z g by simp
  have "double_le (round_double (l / 2)) (round_double l)"
    by (rule round_double_mono) (use assms(2) in simp)
  then have 2: "g \<le> l" unfolding g assms(1) by simp
  from 1 2 show ?thesis by simp
qed

lemmas double_eval =
  round_double_def round_magnitude_def binade_def binade_up.simps binade_down.simps
  round_half_even_def power_int_minus

section \<open>Properties of data exchange, candidate selection and the admin socket\<close>

lemma is_hash_empty_zeros: "is_hash_empty (replicate n 0)"
  by (simp add: is_hash_empty_def list_all_iff)

text \<open>
  C4 does not hold of the code. \<^verbatim>\<open>exchange_data_with_peers\<close> calls
  \<^verbatim>\<open>send_getdata_for_block\<close> for every handshaken peer, with a null hash when the peer is
  not idle or no hash is left, and it never assigns \<^verbatim>\<open>requesting\<close>. On a node with one
  handshaken idle peer: with one missing block the getdata is sent and the peer is as idle
  as before (the tick reads the peer and returns only what it sent), so the next tick
  sends the next request; with no missing block the tick reads through the null pointer.
\<close>

theorem exchange_data_defects:
  "is_peer_idle shaken_peer
   \<and> exchange_data_with_peers (\<lambda>n. take n [block_hash 1]) one_peer_node
       = Inr [[SendMessage CMD_GETDATA (IVData [\<lparr> iv_type = IV_TYPE_MSG_BLOCK, iv_hash = block_hash 1 \<rparr>])]]
   \<and> exchange_data_with_peers (\<lambda>n. []) one_peer_node = Inl NullPointer"
  by (simp add: exchange_data_with_peers_def one_peer_node_def shaken_peer_def fresh_peer_def
      count_idle_peers_def is_peer_idle_def peer_hand_shaken_def is_hash_empty_zeros
      block_hash_def send_getdata_for_block_def send_message_def cmd_defs)

text \<open>
  The loop of \<^verbatim>\<open>pick_best_nonpeer_candidate\<close> never moves to a peer: its result is the best
  candidate it started with, or a candidate that is not a peer.
\<close>

lemma pick_loop_result:
  "fst (pick_loop is_peer t rnd cs i k (b, bs)) = b
   \<or> (\<not> is_peer (fst (pick_loop is_peer t rnd cs i k (b, bs)))
      \<and> i \<le> fst (pick_loop is_peer t rnd cs i k (b, bs))
      \<and> fst (pick_loop is_peer t rnd cs i k (b, bs)) < i + length cs)"
proof (induction cs arbitrary: i k b bs)
  case Nil
  then show ?case by simp
next
  case (Cons c cs)
  show ?case
    using Cons.IH[of "Suc i" k b bs] Cons.IH[of "Suc i" "Suc k" b bs]
      Cons.IH[of "Suc i" "Suc k" i "rate_candidate t (rnd k) c"]
    by (auto simp: Let_def)
qed

lemma pick_best_first_or_nonpeer:
  assumes "pick_best_nonpeer_candidate is_peer t rnd cands n = Some (i, score)"
  shows "i = 0 \<or> \<not> is_peer i"
proof (cases cands)
  case Nil
  with assms show ?thesis by (simp add: pick_best_nonpeer_candidate_def)
next
  case (Cons c0 cs)
  with assms have "pick_loop is_peer t rnd (take n cands) 0 1 (0, rate_candidate t (rnd 0) c0) = (i, score)"
    by (simp add: pick_best_nonpeer_candidate_def)
  then have "fst (pick_loop is_peer t rnd (take n cands) 0 1 (0, rate_candidate t (rnd 0) c0)) = i"
    by simp
  with pick_loop_result[of is_peer t rnd "take n cands" 0 1 0 "rate_candidate t (rnd 0) c0"]
  show ?thesis by metis
qed

text \<open>
  C5 does not hold of the code. The best candidate starts as entry 0 without a test of
  \<^verbatim>\<open>is_peer\<close>: with two active, untested candidates seen at the same time, entry 0 bound
  to a peer slot and rated with the sample 0.875, entry 1 unbound and rated with the sample
  0.125, the function returns entry 0 (score 3.25 against 1.75), a candidate that is bound.
\<close>

theorem pick_best_returns_peer:
  "pick_best_nonpeer_candidate (\<lambda>i. i = 0) (Finite 2000000)
     (\<lambda>k. if k = 0 then Finite 0.875 else Finite 0.125)
     [candidate PEER_CANDIDATE_STATUS_ACTIVE 1000 0, candidate PEER_CANDIDATE_STATUS_ACTIVE 1000 0] 2
   = Some (0, Finite 3.25)"
  by (simp add: pick_best_nonpeer_candidate_def rate_candidate_def candidate_def Let_def
      DAY_TO_MILLISECOND_def SECOND_TO_MILLISECOND_def config_def double_sub_def double_eval)

text \<open>
  The score as a sum: the timestamp score is a double between 0 and 1 that depends on the
  clock and the candidate's timestamp only.
\<close>

lemma rate_candidate_shape:
  "\<exists>\<tau>. 0 \<le> \<tau> \<and> \<tau> \<le> 1 \<and>
     (\<forall>c'. addr c' = addr c \<longrightarrow>
        rate_candidate t s c' =
          double_add
            (double_add
               (double_add (Finite (if status c' = PEER_CANDIDATE_STATUS_DISABLED then - 10 else 0))
                  (Finite \<tau>))
               (if averageLatency c' \<noteq> 0 then round_double (2000 / averageLatency c') else Finite 1))
            (double_mul s (Finite 2)))"
proof -
  define D where "D = double_sub t
      (SECOND_TO_MILLISECOND (double_mul (Finite (real (unat (ar_timestamp (addr c))))) (Finite 1)))"
  have "\<exists>w. round_double (4 / 5) = Finite w \<and> of_int 0 \<le> w \<and> w \<le> of_int 1"
    by (rule round_double_between) simp_all
  then obtain w where w: "round_double (4 / 5) = Finite w" "0 \<le> w" "w \<le> 1" by auto
  define T where "T = (if double_gt D (DAY_TO_MILLISECOND 7) then w
                       else if double_gt D (DAY_TO_MILLISECOND 1) then 1 else 0.5)"
  have T: "0 \<le> T" "T \<le> 1" using w(2,3) by (simp_all add: T_def)
  have "rate_candidate t s c' =
          double_add
            (double_add
               (double_add (Finite (if status c' = PEER_CANDIDATE_STATUS_DISABLED then - 10 else 0))
                  (Finite T))
               (if averageLatency c' \<noteq> 0 then round_double (2000 / averageLatency c') else Finite 1))
            (double_mul s (Finite 2))" if "addr c' = addr c" for c'
    using that by (simp add: rate_candidate_def Let_def D_def T_def config_def w(1))
  with T show ?thesis by blast
qed

text \<open>
  The score of a candidate last seen 1000 s before the clock reading: the timestamp score
  is 0.5.
\<close>

lemma rate_candidate_recent:
  "rate_candidate (Finite 2000000) s (candidate st 1000 lat)
     = double_add
         (double_add
            (double_add (if st = PEER_CANDIDATE_STATUS_DISABLED then Finite (- 10) else Finite 0)
               (Finite 0.5))
            (if lat \<noteq> 0 then double_div (Finite 2000) (Finite lat) else Finite 1))
         (double_mul s (Finite 2))"
proof -
  have "double_gt (double_sub (Finite 2000000)
            (SECOND_TO_MILLISECOND (double_mul (Finite (real (unat (1000 :: 32 word)))) (Finite 1.0))))
          (DAY_TO_MILLISECOND d) = (real (d * 86400000) < 1000000)" for d
    by (simp add: DAY_TO_MILLISECOND_def SECOND_TO_MILLISECOND_def double_sub_def double_eval)
  then show ?thesis
    by (simp add: rate_candidate_def Let_def config_def candidate_def
        del: double_div.simps double_add.simps double_mul.simps)
qed

text \<open>
  C6, as the code has it, in the arithmetic of doubles. For any clock value, any jitter
  sample in \<open>[0, 1]\<close> and any candidate (its average latency a finite double):
  (a) the score with status disabled is never higher than the score with status active,
  all other fields equal, and it is strictly lower when the average latency is zero
  (untested) or at least \<open>2\<^sup>-\<^sup>4\<^sup>0\<close> ms in magnitude; (b) if the average latency is positive,
  any positive latency \<open>h\<close> not above it gives a score at least as high, and so does its
  half \<open>g\<close>, as the division of doubles rounds it, when that is not zero.
\<close>

theorem scoring_monotone:
  assumes "0 \<le> r" "r \<le> 1"
  shows "double_le (rate_candidate t (Finite r) (c\<lparr> status := PEER_CANDIDATE_STATUS_DISABLED \<rparr>))
           (rate_candidate t (Finite r) (c\<lparr> status := PEER_CANDIDATE_STATUS_ACTIVE \<rparr>))
         \<and> (averageLatency c = 0 \<or> 1 / 2 ^ 40 \<le> \<bar>averageLatency c\<bar> \<longrightarrow>
              double_lt (rate_candidate t (Finite r) (c\<lparr> status := PEER_CANDIDATE_STATUS_DISABLED \<rparr>))
                (rate_candidate t (Finite r) (c\<lparr> status := PEER_CANDIDATE_STATUS_ACTIVE \<rparr>)))
         \<and> (0 < h \<and> h \<le> averageLatency c \<longrightarrow>
              double_le (rate_candidate t (Finite r) c)
                (rate_candidate t (Finite r) (c\<lparr> averageLatency := h \<rparr>)))
         \<and> (0 < averageLatency c \<and> round_double (averageLatency c) = Finite (averageLatency c)
              \<and> double_div (Finite (averageLatency c)) (Finite 2) = Finite g \<and> g \<noteq> 0 \<longrightarrow>
              double_le (rate_candidate t (Finite r) c)
                (rate_candidate t (Finite r) (c\<lparr> averageLatency := g \<rparr>)))"
proof -
  from rate_candidate_shape[of c t "Finite r"] obtain \<tau> where
    \<tau>: "0 \<le> \<tau>" "\<tau> \<le> 1" and
    shape: "\<And>c'. addr c' = addr c \<Longrightarrow>
        rate_candidate t (Finite r) c' =
          double_add
            (double_add
               (double_add (Finite (if status c' = PEER_CANDIDATE_STATUS_DISABLED then - 10 else 0))
                  (Finite \<tau>))
               (if averageLatency c' \<noteq> 0 then round_double (2000 / averageLatency c') else Finite 1))
            (double_mul (Finite r) (Finite 2))"
    by blast
  define L where "L = (if averageLatency c \<noteq> 0 then round_double (2000 / averageLatency c) else Finite 1)"
  have Ln: "L \<noteq> NotANumber" by (simp add: L_def round_double_not_nan)
  have "\<exists>w. round_double (r * 2) = Finite w \<and> of_int 0 \<le> w \<and> w \<le> of_int 2"
    by (rule round_double_between) (use assms in simp_all)
  then obtain j where j: "round_double (r * 2) = Finite j" "0 \<le> j" "j \<le> 2" by auto
  have "\<exists>w. round_double (- 10 + \<tau>) = Finite w \<and> of_int (- 10) \<le> w \<and> w \<le> of_int (- 9)"
    by (rule round_double_between) (use \<tau> in simp_all)
  then obtain a where a: "round_double (- 10 + \<tau>) = Finite a" "- 10 \<le> a" "a \<le> - 9" by auto
  have "\<exists>w. round_double (0 + \<tau>) = Finite w \<and> of_int 0 \<le> w \<and> w \<le> of_int 1"
    by (rule round_double_between) (use \<tau> in simp_all)
  then obtain b where b: "round_double (0 + \<tau>) = Finite b" "0 \<le> b" "b \<le> 1" by auto
  have dis: "rate_candidate t (Finite r) (c\<lparr> status := PEER_CANDIDATE_STATUS_DISABLED \<rparr>)
               = double_add (double_add (Finite a) L) (Finite j)"
    using shape[of "c\<lparr> status := PEER_CANDIDATE_STATUS_DISABLED \<rparr>"] a(1) j(1)
    by (simp add: L_def)
  have act: "rate_candidate t (Finite r) (c\<lparr> status := PEER_CANDIDATE_STATUS_ACTIVE \<rparr>)
               = double_add (double_add (Finite b) L) (Finite j)"
    using shape[of "c\<lparr> status := PEER_CANDIDATE_STATUS_ACTIVE \<rparr>"] b(1) j(1)
    by (simp add: L_def)
  have weak: "double_le (double_add (double_add (Finite a) L) (Finite j))
                (double_add (double_add (Finite b) L) (Finite j))"
    using a(3) b(2) Ln by (intro double_add_mono_left double_add_mono_finite) simp_all
  have strict: "double_lt (double_add (double_add (Finite a) L) (Finite j))
                  (double_add (double_add (Finite b) L) (Finite j))"
    if lat: "averageLatency c = 0 \<or> 1 / 2 ^ 40 \<le> \<bar>averageLatency c\<bar>"
  proof -
    have "\<exists>l. L = Finite l \<and> \<bar>l\<bar> \<le> 2 ^ 51"
    proof (cases "averageLatency c = 0")
      case True
      then show ?thesis by (simp add: L_def)
    next
      case False
      with lat have big: "1 / 2 ^ 40 \<le> \<bar>averageLatency c\<bar>" by simp
      then have pos: "0 < \<bar>averageLatency c\<bar>" using False by simp
      have "\<bar>2000 / averageLatency c\<bar> = 2000 / \<bar>averageLatency c\<bar>" by simp
      also have "\<dots> \<le> 2000 / (1 / 2 ^ 40)"
        using big by (intro divide_left_mono) simp_all
      also have "\<dots> \<le> 2 ^ 51" by simp
      finally have v: "\<bar>2000 / averageLatency c\<bar> \<le> 2 ^ 51" .
      from v have "- (2 ^ 51) \<le> 2000 / averageLatency c \<and> 2000 / averageLatency c \<le> 2 ^ 51"
        by linarith
      then have "\<exists>w. round_double (2000 / averageLatency c) = Finite w
               \<and> of_int (- (2 ^ 51)) \<le> w \<and> w \<le> of_int (2 ^ 51)"
        by (intro round_double_between) simp_all
      then show ?thesis using False by (auto simp: L_def)
    qed
    then obtain l where l: "L = Finite l" "\<bar>l\<bar> \<le> 2 ^ 51" by blast
    have "\<exists>w. round_double (a + l) = Finite w \<and> a + l - 1 < w \<and> w < a + l + 1"
      by (rule round_double_close) (use a(2,3) l(2) in simp)
    then obtain x where x: "round_double (a + l) = Finite x" "a + l - 1 < x" "x < a + l + 1" by blast
    have "\<exists>w. round_double (b + l) = Finite w \<and> b + l - 1 < w \<and> w < b + l + 1"
      by (rule round_double_close) (use b(2,3) l(2) in simp)
    then obtain y where y: "round_double (b + l) = Finite y" "b + l - 1 < y" "y < b + l + 1" by blast
    have "\<exists>w. round_double (x + j) = Finite w \<and> x + j - 1 < w \<and> w < x + j + 1"
      by (rule round_double_close) (use x(2,3) a(2,3) j(2,3) l(2) in simp)
    then obtain x' where x': "round_double (x + j) = Finite x'" "x' < x + j + 1" by blast
    have "\<exists>w. round_double (y + j) = Finite w \<and> y + j - 1 < w \<and> w < y + j + 1"
      by (rule round_double_close) (use y(2,3) b(2,3) j(2,3) l(2) in simp)
    then obtain y' where y': "round_double (y + j) = Finite y'" "y + j - 1 < y'" by blast
    have "x' < y'" using x'(2) y'(2) x(3) y(2) a(3) b(2) by linarith
    then show ?thesis
      by (simp add: l(1) x(1) y(1) x'(1) y'(1) double_lt_def)
  qed
  have half: "double_le (rate_candidate t (Finite r) c)
                (rate_candidate t (Finite r) (c\<lparr> averageLatency := h \<rparr>))"
    if h: "0 < h \<and> h \<le> averageLatency c" for h
  proof -
    define s0 :: real where "s0 = (if status c = PEER_CANDIDATE_STATUS_DISABLED then - 10 else 0)"
    have "\<exists>w. round_double (s0 + \<tau>) = Finite w \<and> of_int (- 10) \<le> w \<and> w \<le> of_int 1"
      by (rule round_double_between) (use \<tau> in \<open>simp_all add: s0_def\<close>)
    then obtain q where q: "round_double (s0 + \<tau>) = Finite q" by blast
    have 1: "rate_candidate t (Finite r) c
               = double_add (double_add (Finite q) (round_double (2000 / averageLatency c))) (Finite j)"
      using shape[of c] q j(1) h by (simp add: s0_def)
    have 2: "rate_candidate t (Finite r) (c\<lparr> averageLatency := h \<rparr>)
               = double_add (double_add (Finite q) (round_double (2000 / h))) (Finite j)"
      using shape[of "c\<lparr> averageLatency := h \<rparr>"] q j(1) h by (simp add: s0_def)
    have "2000 / averageLatency c \<le> 2000 / h"
      using h by (intro divide_left_mono) simp_all
    then have "double_le (round_double (2000 / averageLatency c)) (round_double (2000 / h))"
      by (rule round_double_mono)
    then show ?thesis
      unfolding 1 2 by (intro double_add_mono_left double_add_mono_right)
  qed
  have halved: "double_le (rate_candidate t (Finite r) c)
                  (rate_candidate t (Finite r) (c\<lparr> averageLatency := g \<rparr>))"
    if g: "0 < averageLatency c \<and> round_double (averageLatency c) = Finite (averageLatency c)
           \<and> double_div (Finite (averageLatency c)) (Finite 2) = Finite g \<and> g \<noteq> 0"
  proof -
    from g double_halve_bounds[of "averageLatency c" g] have "0 < g \<and> g \<le> averageLatency c"
      by auto
    then show ?thesis by (rule half)
  qed
  show ?thesis
    unfolding dis act using weak strict half halved by blast
qed

text \<open>
  The theorem at a candidate with average latency 400 ms: disabled -3.5, active 6.5, with
  latency 200 ms 11.5.
\<close>

theorem scoring_monotone_witness:
  "rate_candidate (Finite 2000000) (Finite 0.5) (candidate PEER_CANDIDATE_STATUS_DISABLED 1000 400)
     = Finite (- 3.5)
   \<and> rate_candidate (Finite 2000000) (Finite 0.5) (candidate PEER_CANDIDATE_STATUS_ACTIVE 1000 400)
     = Finite 6.5
   \<and> rate_candidate (Finite 2000000) (Finite 0.5) (candidate PEER_CANDIDATE_STATUS_ACTIVE 1000 200)
     = Finite 11.5
   \<and> double_lt
       (rate_candidate (Finite 2000000) (Finite 0.5) (candidate PEER_CANDIDATE_STATUS_DISABLED 1000 400))
       (rate_candidate (Finite 2000000) (Finite 0.5) (candidate PEER_CANDIDATE_STATUS_ACTIVE 1000 400))
   \<and> double_le
       (rate_candidate (Finite 2000000) (Finite 0.5) (candidate PEER_CANDIDATE_STATUS_ACTIVE 1000 400))
       (rate_candidate (Finite 2000000) (Finite 0.5) (candidate PEER_CANDIDATE_STATUS_ACTIVE 1000 200))
   \<and> round_double 400 = Finite 400
   \<and> double_div (Finite 400) (Finite 2) = Finite 200"
  using scoring_monotone[where r = "0.5" and t = "Finite 2000000"
      and c = "candidate PEER_CANDIDATE_STATUS_ACTIVE 1000 400" and h = 200 and g = 200]
  by (simp add: rate_candidate_def Let_def config_def candidate_def
      DAY_TO_MILLISECOND_def SECOND_TO_MILLISECOND_def double_sub_def double_lt_def double_eval)

text \<open>
  C6 as stated fails twice. (a) At the average latency \<open>2\<^sup>-\<^sup>5\<^sup>0\<close> ms the latency score is
  \<open>2000 * 2\<^sup>5\<^sup>0\<close>, where doubles are 256 apart: the sum absorbs the status score and the
  disabled and the active candidate have the same score. (b) The smallest positive double,
  \<open>2\<^sup>-\<^sup>1\<^sup>0\<^sup>7\<^sup>4\<close>, is a nonzero latency with an infinite score; its half is the double 0, which
  \<^verbatim>\<open>rate_candidate\<close> takes for untested, and the score falls to 2.5.
\<close>

theorem scoring_monotone_counterexample:
  "round_double (1 / 2 ^ 50) = Finite (1 / 2 ^ 50)
   \<and> rate_candidate (Finite 2000000) (Finite 0.5)
        (candidate PEER_CANDIDATE_STATUS_DISABLED 1000 (1 / 2 ^ 50)) = Finite (2000 * 2 ^ 50)
   \<and> rate_candidate (Finite 2000000) (Finite 0.5)
        (candidate PEER_CANDIDATE_STATUS_ACTIVE 1000 (1 / 2 ^ 50)) = Finite (2000 * 2 ^ 50)
   \<and> \<not> double_lt
        (rate_candidate (Finite 2000000) (Finite 0.5)
           (candidate PEER_CANDIDATE_STATUS_DISABLED 1000 (1 / 2 ^ 50)))
        (rate_candidate (Finite 2000000) (Finite 0.5)
           (candidate PEER_CANDIDATE_STATUS_ACTIVE 1000 (1 / 2 ^ 50)))
   \<and> round_double (1 / 2 ^ 1074) = Finite (1 / 2 ^ 1074)
   \<and> double_div (Finite (1 / 2 ^ 1074)) (Finite 2) = Finite 0
   \<and> rate_candidate (Finite 2000000) (Finite 0.5)
        (candidate PEER_CANDIDATE_STATUS_ACTIVE 1000 (1 / 2 ^ 1074)) = PlusInfinity
   \<and> rate_candidate (Finite 2000000) (Finite 0.5)
        (candidate PEER_CANDIDATE_STATUS_ACTIVE 1000 0) = Finite 2.5
   \<and> \<not> double_le PlusInfinity (Finite 2.5)"
proof -
  have a: "round_double (1 / 2 ^ 50) = Finite (1 / 2 ^ 50)
   \<and> rate_candidate (Finite 2000000) (Finite 0.5)
        (candidate PEER_CANDIDATE_STATUS_DISABLED 1000 (1 / 2 ^ 50)) = Finite (2000 * 2 ^ 50)
   \<and> rate_candidate (Finite 2000000) (Finite 0.5)
        (candidate PEER_CANDIDATE_STATUS_ACTIVE 1000 (1 / 2 ^ 50)) = Finite (2000 * 2 ^ 50)
   \<and> \<not> double_lt
        (rate_candidate (Finite 2000000) (Finite 0.5)
           (candidate PEER_CANDIDATE_STATUS_DISABLED 1000 (1 / 2 ^ 50)))
        (rate_candidate (Finite 2000000) (Finite 0.5)
           (candidate PEER_CANDIDATE_STATUS_ACTIVE 1000 (1 / 2 ^ 50)))"
    by (simp add: rate_candidate_def Let_def config_def candidate_def
        DAY_TO_MILLISECOND_def SECOND_TO_MILLISECOND_def double_sub_def double_lt_def double_eval)
  have d: "double_div (Finite (1 / 2 ^ 1074)) (Finite 2) = Finite 0"
    using round_double_tiny(2) by (simp del: divide_divide_eq_left)
  have n: "(1::real) / 2 ^ 1074 \<noteq> 0" by simp
  have l: "double_div (Finite 2000) (Finite (1 / 2 ^ 1074)) = PlusInfinity"
    using round_double_huge n by (simp del: divide_divide_eq_right)
  have o: "round_double (1 / 2) = Finite (1 / 2)" "round_double 1 = Finite 1"
    by (simp_all add: double_eval)
  have 1: "rate_candidate (Finite 2000000) (Finite 0.5)
        (candidate PEER_CANDIDATE_STATUS_ACTIVE 1000 (1 / 2 ^ 1074)) = PlusInfinity"
    unfolding rate_candidate_recent if_P[OF n] l by (simp add: o)
  have 2: "rate_candidate (Finite 2000000) (Finite 0.5)
        (candidate PEER_CANDIDATE_STATUS_ACTIVE 1000 0) = Finite 2.5"
    by (simp add: rate_candidate_recent double_eval)
  have b: "round_double (1 / 2 ^ 1074) = Finite (1 / 2 ^ 1074)
   \<and> double_div (Finite (1 / 2 ^ 1074)) (Finite 2) = Finite 0
   \<and> rate_candidate (Finite 2000000) (Finite 0.5)
        (candidate PEER_CANDIDATE_STATUS_ACTIVE 1000 (1 / 2 ^ 1074)) = PlusInfinity
   \<and> rate_candidate (Finite 2000000) (Finite 0.5)
        (candidate PEER_CANDIDATE_STATUS_ACTIVE 1000 0) = Finite 2.5
   \<and> \<not> double_le PlusInfinity (Finite 2.5)"
    unfolding 1 2 d using round_double_tiny(1) by simp
  from a b show ?thesis by blast
qed

text \<open>
  C9 does not hold of the code. The comparison with \<^verbatim>\<open>KILL\<close> reads four bytes of the read
  buffer whatever \<^verbatim>\<open>nread\<close> is: a read that delivers the single byte \<^verbatim>\<open>K\<close> into a buffer
  that still holds \<^verbatim>\<open>ILL\<close> behind it stops the loop.
\<close>

theorem kill_ignores_nread:
  "seg_data stale_kill_segment = ascii ''K''
   \<and> on_incoming_segment_to_api stale_kill_segment = [UvStop, UvLoopClose]"
  by (simp add: on_incoming_segment_to_api_def stale_kill_segment_def INSTRUCTION_KILL_def
      terminate_main_loop_def ascii_def seg_data_def)

end
